theory Spec2Isabelle
  imports Complex_Main
begin

section \<open>Great-circle geometry of \<^verbatim>\<open>geo.py\<close>\<close>

text \<open>
  The module \<^verbatim>\<open>geo.py\<close> is embedded function by function. Python floats are read as
  real numbers (exact arithmetic), tuples of numbers as lists of reals, and every
  \<^verbatim>\<open>raise\<close> of the source (and of the built-ins it calls: \<^verbatim>\<open>math.acos\<close>, division,
  list indexing) as a value \<open>Inl e\<close> of a sum type. Two places where the floats decide
  the result have an embedding of their own: the vector functions in double precision,
  with rounding, subnormal numbers and the \<^verbatim>\<open>OverflowError\<close> of \<^verbatim>\<open>a ** 2\<close>, and the
  coordinate functions with the library's cosine and sine as parameters.
\<close>

subsection \<open>Errors\<close>

datatype py_error = ValueError string | ZeroDivisionError | IndexError | OverflowError

definition bind_err :: "py_error + 'a \<Rightarrow> ('a \<Rightarrow> py_error + 'b) \<Rightarrow> py_error + 'b" where
  "bind_err m f = (case m of Inl e \<Rightarrow> Inl e | Inr x \<Rightarrow> f x)"

subsection \<open>Built-ins of Python used by the module\<close>

text \<open>\<^verbatim>\<open>round(x)\<close>: to the nearest integer, a tie goes to the even neighbour.\<close>

definition py_round :: "real \<Rightarrow> int" where
  "py_round x =
     (let f = \<lfloor>x\<rfloor>; d = x - of_int f
      in if d < 1 / 2 then f
         else if 1 / 2 < d then f + 1
         else if even f then f else f + 1)"

text \<open>\<^verbatim>\<open>round(x, n)\<close> for \<open>n \<ge> 0\<close>: to the nearest multiple of \<open>10\<^sup>-\<^sup>n\<close>.\<close>

definition py_round_ndigits :: "real \<Rightarrow> nat \<Rightarrow> real" where
  "py_round_ndigits x n = of_int (py_round (x * 10 ^ n)) / 10 ^ n"

text \<open>\<^verbatim>\<open>a / b\<close> raises \<^verbatim>\<open>ZeroDivisionError\<close> on a zero divisor.\<close>

definition py_div :: "real \<Rightarrow> real \<Rightarrow> py_error + real" where
  "py_div a b = (if b = 0 then Inl ZeroDivisionError else Inr (a / b))"

text \<open>\<^verbatim>\<open>math.acos\<close> raises \<^verbatim>\<open>ValueError('math domain error')\<close> outside \<open>[-1, 1]\<close>.\<close>

definition py_acos :: "real \<Rightarrow> py_error + real" where
  "py_acos x =
     (if x < - 1 \<or> 1 < x then Inl (ValueError ''math domain error'') else Inr (arccos x))"

definition radians :: "real \<Rightarrow> real" where
  "radians d = d * pi / 180"

definition degrees :: "real \<Rightarrow> real" where
  "degrees r = r * 180 / pi"

text \<open>\<^verbatim>\<open>xs[i]\<close>: a negative index counts from the end, anything else out of range raises.\<close>

definition py_index :: "'a list \<Rightarrow> int \<Rightarrow> py_error + 'a" where
  "py_index xs i =
     (if 0 \<le> i \<and> i < int (length xs) then Inr (xs ! nat i)
      else if - int (length xs) \<le> i \<and> i < 0 then Inr (xs ! nat (int (length xs) + i))
      else Inl IndexError)"

subsection \<open>Vector algebra\<close>

definition R :: real where
  "R = 6371"

text \<open>
  \<^verbatim>\<open>math.sqrt(sum([a ** 2 for a in v]))\<close>. The argument of the square root is a sum of
  squares (lemma \<open>sum_squares_nonneg\<close> below), so the domain error of \<^verbatim>\<open>math.sqrt\<close> is
  not a branch here.
\<close>

definition magnitude :: "real list \<Rightarrow> real" where
  "magnitude v = sqrt (sum_list (map (\<lambda>a. a ^ 2) v))"

definition dot_product :: "real list \<Rightarrow> real list \<Rightarrow> py_error + real" where
  "dot_product v w =
     (if length v \<noteq> length w then Inl (ValueError ''Vectors must have the same length'')
      else Inr (sum_list (map (\<lambda>(a, b). a * b) (zip v w))))"

definition cross_product :: "real list \<Rightarrow> real list \<Rightarrow> py_error + real list" where
  "cross_product v w =
     (if length v \<noteq> 3 \<or> length w \<noteq> 3 then Inl (ValueError ''Vectors must have a length of 3'')
      else
        let x = v ! 1 * w ! 2 - v ! 2 * w ! 1;
            y = v ! 2 * w ! 0 - v ! 0 * w ! 2;
            z = v ! 0 * w ! 1 - v ! 1 * w ! 0
        in Inr [x, y, z])"

subsection \<open>Coordinate conversion\<close>

definition to_vector :: "real \<Rightarrow> real \<Rightarrow> py_error + real list" where
  "to_vector lat long =
     (if lat < - 90 \<or> 90 < lat then Inl (ValueError ''Latitude must be between -90 and 90'')
      else if long < - 180 \<or> 180 < long
        then Inl (ValueError ''Longitude must be between -180 and 180'')
      else
        let x = R * cos (radians lat) * cos (radians long);
            y = R * cos (radians lat) * sin (radians long);
            z = R * sin (radians lat)
        in Inr [x, y, z])"

subsection \<open>Angles and distances\<close>

definition angle_vectors :: "real list \<Rightarrow> real list \<Rightarrow> py_error + real" where
  "angle_vectors v w =
     (if length v \<noteq> length w then Inl (ValueError ''Vectors must have the same length'')
      else if magnitude v = 0 \<or> magnitude w = 0 then Inr 0
      else
        bind_err (dot_product v w) (\<lambda>d.
        bind_err (py_div d (magnitude v * magnitude w)) (\<lambda>q.
        py_acos (py_round_ndigits q 5))))"

definition angle_between_coordinates :: "real \<Rightarrow> real \<Rightarrow> real \<Rightarrow> real \<Rightarrow> py_error + real" where
  "angle_between_coordinates lat1 long1 lat2 long2 =
     bind_err (to_vector lat1 long1) (\<lambda>u.
     bind_err (to_vector lat2 long2) (\<lambda>v.
     angle_vectors u v))"

definition distance_between_coordinates :: "real \<Rightarrow> real \<Rightarrow> real \<Rightarrow> real \<Rightarrow> py_error + real" where
  "distance_between_coordinates lat1 long1 lat2 long2 =
     bind_err (angle_between_coordinates lat1 long1 lat2 long2) (\<lambda>angle.
     Inr (angle * R))"

subsection \<open>The vector functions in double precision\<close>

text \<open>
  \<^verbatim>\<open>magnitude\<close>, \<^verbatim>\<open>dot_product\<close> and \<^verbatim>\<open>angle_vectors\<close> use only \<open>+\<close>, \<open>*\<close>, \<open>**\<close>, \<open>/\<close>,
  \<^verbatim>\<open>math.sqrt\<close>, \<^verbatim>\<open>round\<close> and \<^verbatim>\<open>math.acos\<close>. On Python floats (IEEE 754 binary64) each of
  the first six returns the exact result rounded to the nearest double, ties to even, so
  these three functions can also be embedded with that rounding written out. A nonzero
  real \<open>x\<close> is rounded to a multiple of \<^verbatim>\<open>2**e\<close> with \<^verbatim>\<open>e = max(floor(log2(|x|)) - 52, -1074)\<close>; the lower
  bound is the spacing of the subnormal numbers. \<^verbatim>\<open>a ** 2\<close> raises \<^verbatim>\<open>OverflowError\<close> when the
  rounded square is \<^verbatim>\<open>2**1024\<close> or more, that is for \<^verbatim>\<open>|a| >= 2**512\<close>. The other operations
  do not raise there: where a float sum or product is infinite, the rounded value here is
  a real of \<^verbatim>\<open>2**1024\<close> or more, and NaN is not represented. The sum is taken from left to
  right starting at 0, and the value of a successful \<^verbatim>\<open>math.acos\<close> is taken as the rounded
  arc cosine. \<^verbatim>\<open>angle_vectors\<close> calls \<^verbatim>\<open>magnitude(w)\<close> only if \<^verbatim>\<open>magnitude(v) == 0\<close> is false,
  and calls both again for the quotient.
\<close>

definition double_ulp :: "real \<Rightarrow> real" where
  "double_ulp x = 2 powr of_int (max (\<lfloor>log 2 \<bar>x\<bar>\<rfloor> - 52) (- 1074))"

definition to_double :: "real \<Rightarrow> real" where
  "to_double x = (if x = 0 then 0 else of_int (py_round (x / double_ulp x)) * double_ulp x)"

definition sum_double :: "real list \<Rightarrow> real" where
  "sum_double xs = foldl (\<lambda>s x. to_double (s + x)) 0 xs"

definition pow2_double :: "real \<Rightarrow> py_error + real" where
  "pow2_double a =
     (if 2 ^ 1024 \<le> to_double (a ^ 2) then Inl OverflowError else Inr (to_double (a ^ 2)))"

fun squares_double :: "real list \<Rightarrow> py_error + real list" where
  "squares_double [] = Inr []"
| "squares_double (a # v) =
     bind_err (pow2_double a) (\<lambda>s.
     bind_err (squares_double v) (\<lambda>t.
     Inr (s # t)))"

definition magnitude_double :: "real list \<Rightarrow> py_error + real" where
  "magnitude_double v =
     bind_err (squares_double v) (\<lambda>sq.
     Inr (to_double (sqrt (sum_double sq))))"

definition dot_product_double :: "real list \<Rightarrow> real list \<Rightarrow> py_error + real" where
  "dot_product_double v w =
     (if length v \<noteq> length w then Inl (ValueError ''Vectors must have the same length'')
      else Inr (sum_double (map (\<lambda>(a, b). to_double (a * b)) (zip v w))))"

definition angle_vectors_double :: "real list \<Rightarrow> real list \<Rightarrow> py_error + real" where
  "angle_vectors_double v w =
     (if length v \<noteq> length w then Inl (ValueError ''Vectors must have the same length'')
      else
        bind_err (magnitude_double v) (\<lambda>mv.
        if mv = 0 then Inr 0
        else
          bind_err (magnitude_double w) (\<lambda>mw.
          if mw = 0 then Inr 0
          else
            bind_err (dot_product_double v w) (\<lambda>d.
            bind_err (magnitude_double v) (\<lambda>mv'.
            bind_err (magnitude_double w) (\<lambda>mw'.
            bind_err (py_div d (to_double (mv' * mw'))) (\<lambda>q.
            bind_err (py_acos (to_double (py_round_ndigits (to_double q) 5))) (\<lambda>a.
            Inr (to_double a)))))))))"

subsection \<open>Direction and bearing\<close>

definition direction_between_coordinates ::
  "real \<Rightarrow> real \<Rightarrow> real \<Rightarrow> real \<Rightarrow> py_error + real list" where
  "direction_between_coordinates lat1 long1 lat2 long2 =
     bind_err (to_vector lat1 long1) (\<lambda>v.
     bind_err (to_vector lat2 long2) (\<lambda>w.
     bind_err (cross_product v w) (\<lambda>c.
     bind_err (cross_product c v) (\<lambda>result.
     if magnitude result < 1
     then bind_err (cross_product v [0, 0, 1]) (\<lambda>n. cross_product n v)
     else Inr result))))"

definition bearing_between_coordinates :: "real \<Rightarrow> real \<Rightarrow> real \<Rightarrow> real \<Rightarrow> py_error + real" where
  "bearing_between_coordinates lat1 long1 lat2 long2 =
     bind_err (to_vector lat1 long1) (\<lambda>v.
     bind_err (cross_product v [0, 0, 1]) (\<lambda>n.
     bind_err (cross_product n v) (\<lambda>north_vector.
     bind_err (direction_between_coordinates lat1 long1 lat2 long2) (\<lambda>w.
     bind_err (angle_vectors w north_vector) (\<lambda>a.
     let bearing = degrees a
     in Inr (if long2 < long1 then 360 - bearing else bearing))))))"

subsection \<open>Coordinates with the library's cosine and sine as parameters\<close>

text \<open>
  \<^verbatim>\<open>to_vector\<close> reaches the trigonometric functions only as
  \<^verbatim>\<open>math.cos(math.radians(x))\<close> and \<^verbatim>\<open>math.sin(math.radians(x))\<close>. The next three definitions
  are \<^verbatim>\<open>to_vector\<close>, \<^verbatim>\<open>direction_between_coordinates\<close> and \<^verbatim>\<open>bearing_between_coordinates\<close>
  once more, line by line, with these two compositions as the parameters \<open>cosd\<close> and
  \<open>sind\<close>. With the exact cosine and sine of an angle in degrees they are the definitions
  above.
\<close>

definition to_vector_with ::
  "(real \<Rightarrow> real) \<Rightarrow> (real \<Rightarrow> real) \<Rightarrow> real \<Rightarrow> real \<Rightarrow> py_error + real list" where
  "to_vector_with cosd sind lat long =
     (if lat < - 90 \<or> 90 < lat then Inl (ValueError ''Latitude must be between -90 and 90'')
      else if long < - 180 \<or> 180 < long
        then Inl (ValueError ''Longitude must be between -180 and 180'')
      else
        let x = R * cosd lat * cosd long;
            y = R * cosd lat * sind long;
            z = R * sind lat
        in Inr [x, y, z])"

definition direction_between_coordinates_with ::
  "(real \<Rightarrow> real) \<Rightarrow> (real \<Rightarrow> real) \<Rightarrow> real \<Rightarrow> real \<Rightarrow> real \<Rightarrow> real
     \<Rightarrow> py_error + real list" where
  "direction_between_coordinates_with cosd sind lat1 long1 lat2 long2 =
     bind_err (to_vector_with cosd sind lat1 long1) (\<lambda>v.
     bind_err (to_vector_with cosd sind lat2 long2) (\<lambda>w.
     bind_err (cross_product v w) (\<lambda>c.
     bind_err (cross_product c v) (\<lambda>result.
     if magnitude result < 1
     then bind_err (cross_product v [0, 0, 1]) (\<lambda>n. cross_product n v)
     else Inr result))))"

definition bearing_between_coordinates_with ::
  "(real \<Rightarrow> real) \<Rightarrow> (real \<Rightarrow> real) \<Rightarrow> real \<Rightarrow> real \<Rightarrow> real \<Rightarrow> real
     \<Rightarrow> py_error + real" where
  "bearing_between_coordinates_with cosd sind lat1 long1 lat2 long2 =
     bind_err (to_vector_with cosd sind lat1 long1) (\<lambda>v.
     bind_err (cross_product v [0, 0, 1]) (\<lambda>n.
     bind_err (cross_product n v) (\<lambda>north_vector.
     bind_err (direction_between_coordinates_with cosd sind lat1 long1 lat2 long2) (\<lambda>w.
     bind_err (angle_vectors w north_vector) (\<lambda>a.
     let bearing = degrees a
     in Inr (if long2 < long1 then 360 - bearing else bearing))))))"

text \<open>The exact cosine and sine of an angle given in degrees.\<close>

definition cos_degrees :: "real \<Rightarrow> real" where
  "cos_degrees d = cos (radians d)"

definition sin_degrees :: "real \<Rightarrow> real" where
  "sin_degrees d = sin (radians d)"

text \<open>
  On Python floats \<^verbatim>\<open>math.radians(90)\<close> is the double nearest to \<open>\<pi>/2\<close>, which is not \<open>\<pi>/2\<close>,
  and \<^verbatim>\<open>math.cos\<close> of it is the double \<^verbatim>\<open>4967757600021511 * 2**-106\<close>, printed
  \<^verbatim>\<open>6.123233995736766e-17\<close>; the same holds at -90. \<^verbatim>\<open>math.sin(math.radians(x))\<close> is
  \<^verbatim>\<open>1.0\<close>, \<^verbatim>\<open>-1.0\<close> and \<^verbatim>\<open>0.0\<close> at 90, -90 and 0, and \<^verbatim>\<open>math.cos(math.radians(0))\<close> is
  \<^verbatim>\<open>1.0\<close>, as the exact functions are. \<open>cos_degrees_float\<close> is the cosine with the value of
  the floats at the two poles; away from them the exact cosine stands for the library's.
\<close>

definition cos_degrees_float :: "real \<Rightarrow> real" where
  "cos_degrees_float d =
     (if d = 90 \<or> d = - 90 then 4967757600021511 / 2 ^ 106 else cos (radians d))"

subsection \<open>The bearing as section 4.5 of the specification words it\<close>

text \<open>
  These three definitions follow the specification, not the source: the local north
  tangent \<open>cross(cross(v, (0,0,1)), v)\<close>, the unsigned bearing
  \<open>degrees(angle_vectors(w, north_vector))\<close>, and its mirror image \<open>360 - bearing\<close> when
  \<open>long2 < long1\<close>. They are compared with \<open>bearing_between_coordinates\<close> below.
\<close>

definition north_tangent_spec :: "real list \<Rightarrow> py_error + real list" where
  "north_tangent_spec v = bind_err (cross_product v [0, 0, 1]) (\<lambda>n. cross_product n v)"

definition unsigned_bearing_spec :: "real \<Rightarrow> real \<Rightarrow> real \<Rightarrow> real \<Rightarrow> py_error + real" where
  "unsigned_bearing_spec lat1 long1 lat2 long2 =
     bind_err (to_vector lat1 long1) (\<lambda>v.
     bind_err (north_tangent_spec v) (\<lambda>north_vector.
     bind_err (direction_between_coordinates lat1 long1 lat2 long2) (\<lambda>w.
     bind_err (angle_vectors w north_vector) (\<lambda>a.
     Inr (degrees a)))))"

definition bearing_spec :: "real \<Rightarrow> real \<Rightarrow> real \<Rightarrow> real \<Rightarrow> py_error + real" where
  "bearing_spec lat1 long1 lat2 long2 =
     bind_err (unsigned_bearing_spec lat1 long1 lat2 long2) (\<lambda>u.
     Inr (if long2 < long1 then 360 - u else u))"

subsection \<open>Cardinal mapping\<close>

definition cardinals :: "string list" where
  "cardinals = [''N'', ''NE'', ''E'', ''SE'', ''S'', ''SW'', ''W'', ''NW'', ''N'']"

definition cardinal_from_angle :: "real \<Rightarrow> py_error + string" where
  "cardinal_from_angle angle = py_index cardinals (py_round (angle / 45))"

section \<open>Rounding\<close>

lemma py_round_of_int: "py_round (of_int n) = n"
  by (simp add: py_round_def)

lemma py_round_bounds: "x - 1 / 2 \<le> of_int (py_round x) \<and> of_int (py_round x) \<le> x + 1 / 2"
  unfolding py_round_def Let_def by (auto; linarith)

lemma py_round_eqI:
  assumes "of_int n - 1 / 2 < x" and "x < of_int n + 1 / 2"
  shows "py_round x = n"
proof -
  have "of_int (py_round x) < (of_int (n + 1) :: real)"
    using py_round_bounds [of x] assms by simp
  moreover have "(of_int (n - 1) :: real) < of_int (py_round x)"
    using py_round_bounds [of x] assms by simp
  ultimately have "py_round x < n + 1" and "n - 1 < py_round x"
    by (simp_all only: of_int_less_iff)
  then show ?thesis by simp
qed

lemma py_round_mono: "x \<le> y \<Longrightarrow> py_round x \<le> py_round y"
proof -
  assume xy: "x \<le> y"
  have fl: "\<lfloor>x\<rfloor> \<le> \<lfloor>y\<rfloor>" using xy by (rule floor_mono)
  show ?thesis
  proof (cases "\<lfloor>x\<rfloor> = \<lfloor>y\<rfloor>")
    case True
    then have "x - of_int \<lfloor>x\<rfloor> \<le> y - of_int \<lfloor>y\<rfloor>" using xy by simp
    with True show ?thesis
      unfolding py_round_def Let_def by auto
  next
    case False
    with fl have "\<lfloor>x\<rfloor> + 1 \<le> \<lfloor>y\<rfloor>" by simp
    moreover have "py_round x \<le> \<lfloor>x\<rfloor> + 1"
      unfolding py_round_def Let_def by auto
    moreover have "\<lfloor>y\<rfloor> \<le> py_round y"
      unfolding py_round_def Let_def by auto
    ultimately show ?thesis by linarith
  qed
qed


section \<open>Coordinate conversion: range check and magnitude\<close>

lemma to_vector_Inr:
  assumes "- 90 \<le> lat" "lat \<le> 90" "- 180 \<le> long" "long \<le> 180"
  shows "to_vector lat long =
    Inr [R * cos (radians lat) * cos (radians long),
         R * cos (radians lat) * sin (radians long),
         R * sin (radians lat)]"
  using assms by (simp add: to_vector_def)

text \<open>
Claim C5. \<^verbatim>\<open>to_vector(lat, long)\<close> raises exactly when \<open>lat\<close> is outside \<open>[-90, 90]\<close> or
  \<open>long\<close> is outside \<open>[-180, 180]\<close>, the error then being a \<^verbatim>\<open>ValueError\<close>; for every input
  inside both ranges, boundaries included, it returns a vector of three components.
\<close>

theorem to_vector_raises_iff:
  "((\<exists>e. to_vector lat long = Inl e) \<longleftrightarrow> (lat < - 90 \<or> 90 < lat \<or> long < - 180 \<or> 180 < long))
   \<and> ((lat < - 90 \<or> 90 < lat \<or> long < - 180 \<or> 180 < long) \<longrightarrow>
        (\<exists>msg. to_vector lat long = Inl (ValueError msg)))
   \<and> (- 90 \<le> lat \<and> lat \<le> 90 \<and> - 180 \<le> long \<and> long \<le> 180 \<longrightarrow>
        (\<exists>x y z. to_vector lat long = Inr [x, y, z]))"
  by (auto simp: to_vector_def Let_def)

theorem to_vector_raises_iff_witness:
  "(\<exists>x y z. to_vector 90 (- 180) = Inr [x, y, z])
   \<and> (\<exists>msg. to_vector 91 0 = Inl (ValueError msg))
   \<and> (\<exists>msg. to_vector 0 (- 181) = Inl (ValueError msg))"
  using to_vector_raises_iff [of 90 "- 180"] to_vector_raises_iff [of 91 0]
    to_vector_raises_iff [of 0 "- 181"]
  by simp

lemma sum_squares_nonneg: "0 \<le> sum_list (map (\<lambda>a. a ^ 2) (v :: real list))"
  by (induction v) simp_all

lemma magnitude3: "magnitude [x, y, z] = sqrt (x\<^sup>2 + y\<^sup>2 + z\<^sup>2)"
  by (simp add: magnitude_def)

lemma magnitude_sphere:
  "magnitude [r * cos a * cos b, r * cos a * sin b, r * sin a] = \<bar>r\<bar>"
proof -
  have "(r * cos a * cos b)\<^sup>2 + (r * cos a * sin b)\<^sup>2 + (r * sin a)\<^sup>2
      = r\<^sup>2 * ((cos a)\<^sup>2 * ((cos b)\<^sup>2 + (sin b)\<^sup>2) + (sin a)\<^sup>2)"
    by (simp only: power_mult_distrib distrib_left mult.assoc)
  then have "(r * cos a * cos b)\<^sup>2 + (r * cos a * sin b)\<^sup>2 + (r * sin a)\<^sup>2 = r\<^sup>2"
    by (simp only: sin_cos_squared_add2 mult_1_right)
  then show ?thesis by (simp add: magnitude3)
qed

text \<open>
Claim C6. For every valid \<open>(lat, long)\<close> the vector returned by \<^verbatim>\<open>to_vector\<close> has
  magnitude \<open>R = 6371\<close>, exactly, over the reals.
\<close>

theorem magnitude_to_vector:
  assumes "- 90 \<le> lat" "lat \<le> 90" "- 180 \<le> long" "long \<le> 180"
  shows "\<exists>v. to_vector lat long = Inr v \<and> magnitude v = R \<and> R = 6371"
  using assms by (simp add: to_vector_Inr magnitude_sphere) (simp add: R_def)

theorem magnitude_to_vector_witness:
  "\<exists>v. to_vector 15 (- 28) = Inr v \<and> magnitude v = R \<and> R = 6371"
  using magnitude_to_vector [of 15 "- 28"] by simp

section \<open>Cardinal mapping\<close>

lemma py_index_cardinals:
  "py_index cardinals i =
     (if - 9 \<le> i \<and> i \<le> 8 then Inr (cardinals ! nat (if i < 0 then 9 + i else i))
      else Inl IndexError)"
proof -
  have "length cardinals = 9" by (simp add: cardinals_def)
  then show ?thesis by (simp add: py_index_def)
qed

lemma py_round_17_2: "py_round (17 / 2) = 8"
  by (simp add: py_round_def)

lemma py_round_m19_2: "py_round (- 19 / 2) = - 10"
  by (simp add: py_round_def)

lemma py_round_le_iff_8: "py_round x \<le> 8 \<longleftrightarrow> x \<le> 17 / 2"
proof
  assume "py_round x \<le> 8"
  then have "(of_int (py_round x) :: real) \<le> 8" by linarith
  then show "x \<le> 17 / 2" using py_round_bounds [of x] by linarith
next
  assume "x \<le> 17 / 2"
  then show "py_round x \<le> 8" using py_round_mono [of x "17 / 2"] py_round_17_2 by simp
qed

lemma py_round_ge_iff_m9: "- 9 \<le> py_round x \<longleftrightarrow> - 19 / 2 < x"
proof
  assume "- 9 \<le> py_round x"
  show "- 19 / 2 < x"
  proof (rule ccontr)
    assume "\<not> - 19 / 2 < x"
    then have "py_round x \<le> - 10" using py_round_mono [of x "- 19 / 2"] py_round_m19_2 by simp
    with \<open>- 9 \<le> py_round x\<close> show False by simp
  qed
next
  assume "- 19 / 2 < x"
  then have "(- 10 :: real) < of_int (py_round x)" using py_round_bounds [of x] by linarith
  then have "(of_int (- 10) :: real) < of_int (py_round x)" by simp
  then have "- 10 < py_round x" by (simp only: of_int_less_iff)
  then show "- 9 \<le> py_round x" by simp
qed

lemma py_round_nonneg: "0 \<le> x \<Longrightarrow> 0 \<le> py_round x"
  using py_round_mono [of 0 x] py_round_of_int [of 0] by simp

text \<open>
Claim C8. For every angle in \<open>[0, 360]\<close> the index \<^verbatim>\<open>round(angle / 45)\<close> lies in \<open>0..8\<close> and
  \<^verbatim>\<open>cardinal_from_angle\<close> returns the element at that index of the sequence
  N, NE, E, SE, S, SW, W, NW, N; at 0, 90, 270 and 315 it returns N, E, W and NW.
\<close>

theorem cardinal_from_angle_in_range:
  "(0 \<le> angle \<and> angle \<le> 360 \<longrightarrow>
      0 \<le> py_round (angle / 45) \<and> py_round (angle / 45) \<le> 8 \<and>
      cardinal_from_angle angle =
        Inr ([''N'', ''NE'', ''E'', ''SE'', ''S'', ''SW'', ''W'', ''NW'', ''N'']
               ! nat (py_round (angle / 45))))
   \<and> cardinal_from_angle 0 = Inr ''N''
   \<and> cardinal_from_angle 90 = Inr ''E''
   \<and> cardinal_from_angle 270 = Inr ''W''
   \<and> cardinal_from_angle 315 = Inr ''NW''"
proof -
  have gen: "cardinal_from_angle angle =
        Inr ([''N'', ''NE'', ''E'', ''SE'', ''S'', ''SW'', ''W'', ''NW'', ''N'']
               ! nat (py_round (angle / 45)))"
      and lo: "0 \<le> py_round (angle / 45)" and hi: "py_round (angle / 45) \<le> 8"
    if "0 \<le> angle" "angle \<le> 360"
  proof -
    show lo: "0 \<le> py_round (angle / 45)"
      using that by (intro py_round_nonneg) simp
    show hi: "py_round (angle / 45) \<le> 8"
      using that by (simp add: py_round_le_iff_8)
    show "cardinal_from_angle angle =
        Inr ([''N'', ''NE'', ''E'', ''SE'', ''S'', ''SW'', ''W'', ''NW'', ''N'']
               ! nat (py_round (angle / 45)))"
      using lo hi by (simp add: cardinal_from_angle_def py_index_cardinals) (simp add: cardinals_def)
  qed
  have r0: "py_round (0 / 45) = 0" using py_round_of_int [of 0] by simp
  have r2: "py_round (90 / 45) = 2" using py_round_of_int [of 2] by simp
  have r6: "py_round (270 / 45) = 6" using py_round_of_int [of 6] by simp
  have r7: "py_round (315 / 45) = 7" using py_round_of_int [of 7] by simp
  have "cardinal_from_angle 0 = Inr ''N''"
    unfolding cardinal_from_angle_def r0 py_index_cardinals by (simp add: cardinals_def)
  moreover have "cardinal_from_angle 90 = Inr ''E''"
    unfolding cardinal_from_angle_def r2 py_index_cardinals by (simp add: cardinals_def)
  moreover have "cardinal_from_angle 270 = Inr ''W''"
    unfolding cardinal_from_angle_def r6 py_index_cardinals by (simp add: cardinals_def)
  moreover have "cardinal_from_angle 315 = Inr ''NW''"
    unfolding cardinal_from_angle_def r7 py_index_cardinals by (simp add: cardinals_def)
  ultimately show ?thesis using gen lo hi by blast
qed

lemma py_round_22_5: "py_round (225 / 10 / 45) = 0"
  by (simp add: py_round_def)

theorem cardinal_from_angle_in_range_witness:
  "cardinal_from_angle (225 / 10) = Inr ''N'' \<and> cardinal_from_angle 360 = Inr ''N''"
proof -
  have "py_round (360 / 45) = 8" using py_round_of_int [of 8] by simp
  then show ?thesis
    using cardinal_from_angle_in_range [of "225 / 10"] cardinal_from_angle_in_range [of 360]
      py_round_22_5
    by simp
qed

text \<open>
Claim C10. For every angle in the open interval \<open>(-22.5, 0)\<close> the index
  \<^verbatim>\<open>round(angle / 45)\<close> is 0 and \<^verbatim>\<open>cardinal_from_angle\<close> returns N without an error, although
  the angle is outside \<open>[0, 360]\<close>.
\<close>

theorem cardinal_from_angle_small_negative:
  assumes "- 225 / 10 < angle" "angle < 0"
  shows "cardinal_from_angle angle = Inr ''N'' \<and> py_round (angle / 45) = 0
         \<and> angle \<notin> {0..360}"
proof -
  have "py_round (angle / 45) = 0"
    using assms by (intro py_round_eqI) simp_all
  then show ?thesis
    using assms by (simp add: cardinal_from_angle_def py_index_cardinals) (simp add: cardinals_def)
qed

theorem cardinal_from_angle_small_negative_witness:
  "cardinal_from_angle (- 10) = Inr ''N'' \<and> py_round (- 10 / 45) = 0 \<and> (- 10 :: real) \<notin> {0..360}"
  using cardinal_from_angle_small_negative [of "- 10"] by simp

text \<open>
Claim C2 says that \<^verbatim>\<open>cardinal_from_angle\<close> fails for every angle outside \<open>[0, 360]\<close>.
  It does not: at 370 the index is 8 and the result is N.
\<close>

theorem cardinal_from_angle_outside_counterexample:
  "\<not> (\<forall>angle. angle \<notin> {0..360} \<longrightarrow> (\<exists>e. cardinal_from_angle angle = Inl e))"
proof
  assume "\<forall>angle. angle \<notin> {0..360} \<longrightarrow> (\<exists>e. cardinal_from_angle angle = Inl e)"
  then have "\<exists>e. cardinal_from_angle 370 = Inl e" by simp
  moreover have "py_round (370 / 45) = 8"
    by (intro py_round_eqI) simp_all
  ultimately show False
    by (simp add: cardinal_from_angle_def py_index_cardinals)
qed

text \<open>
Claim C2, amended. \<^verbatim>\<open>cardinal_from_angle\<close> fails, with an \<^verbatim>\<open>IndexError\<close>, exactly for the
  angles \<open>angle \<le> -427.5\<close> and \<open>382.5 < angle\<close>, where \<^verbatim>\<open>round(angle / 45)\<close> is below -9 or above 8;
  for every other angle it returns one of the labels (a negative index counts from the
  end of the sequence).
\<close>

theorem cardinal_from_angle_fails_iff:
  "((\<exists>e. cardinal_from_angle angle = Inl e) \<longleftrightarrow> (angle \<le> - 4275 / 10 \<or> 3825 / 10 < angle))
   \<and> (angle \<le> - 4275 / 10 \<or> 3825 / 10 < angle \<longrightarrow> cardinal_from_angle angle = Inl IndexError)
   \<and> (- 4275 / 10 < angle \<and> angle \<le> 3825 / 10 \<longrightarrow>
        (\<exists>c \<in> set cardinals. cardinal_from_angle angle = Inr c))"
proof -
  have ok: "(- 9 \<le> py_round (angle / 45) \<and> py_round (angle / 45) \<le> 8)
      \<longleftrightarrow> (- 4275 / 10 < angle \<and> angle \<le> 3825 / 10)"
    by (simp add: py_round_le_iff_8 py_round_ge_iff_m9)
  have mem: "cardinals ! nat (if i < 0 then 9 + i else i) \<in> set cardinals"
    if "- 9 \<le> i" "i \<le> 8" for i :: int
  proof -
    have "length cardinals = 9" by (simp add: cardinals_def)
    with that show ?thesis by (intro nth_mem) auto
  qed
  show ?thesis
    unfolding cardinal_from_angle_def py_index_cardinals
    using ok mem [of "py_round (angle / 45)"] by auto
qed

theorem cardinal_from_angle_fails_iff_witness:
  "cardinal_from_angle 400 = Inl IndexError \<and> cardinal_from_angle (- 4275 / 10) = Inl IndexError
   \<and> (\<exists>c \<in> set cardinals. cardinal_from_angle (3825 / 10) = Inr c)"
  using cardinal_from_angle_fails_iff [of 400] cardinal_from_angle_fails_iff [of "- 4275 / 10"]
    cardinal_from_angle_fails_iff [of "3825 / 10"]
  by simp


section \<open>Angle between two vectors\<close>

lemma magnitude_nonneg: "0 \<le> magnitude v"
  by (simp add: magnitude_def sum_squares_nonneg)

lemma cauchy_step:
  fixes a b s p q :: real
  assumes "s\<^sup>2 \<le> p * q" "0 \<le> p" "0 \<le> q"
  shows "(a * b + s)\<^sup>2 \<le> (a\<^sup>2 + p) * (b\<^sup>2 + q)"
proof -
  have "\<bar>s\<bar> \<le> sqrt p * sqrt q"
    using real_sqrt_le_mono [OF assms(1)] by (simp add: real_sqrt_mult)
  then have "\<bar>a\<bar> * \<bar>b\<bar> * \<bar>s\<bar> \<le> \<bar>a\<bar> * \<bar>b\<bar> * (sqrt p * sqrt q)"
    by (intro mult_left_mono) simp_all
  moreover have "a * b * s \<le> \<bar>a\<bar> * \<bar>b\<bar> * \<bar>s\<bar>"
    using abs_ge_self [of "a * b * s"] by (simp add: abs_mult)
  moreover have "0 \<le> (\<bar>a\<bar> * sqrt q - \<bar>b\<bar> * sqrt p)\<^sup>2" by simp
  then have "2 * (\<bar>a\<bar> * \<bar>b\<bar> * (sqrt p * sqrt q)) \<le> a\<^sup>2 * q + b\<^sup>2 * p"
    using assms(2,3) by (simp add: power2_diff power_mult_distrib algebra_simps)
  ultimately have "2 * (a * b * s) \<le> a\<^sup>2 * q + b\<^sup>2 * p" by linarith
  then show ?thesis
    using assms(1) by (simp add: power2_sum power_mult_distrib algebra_simps)
qed

lemma cauchy_schwarz_list:
  "length v = length w \<Longrightarrow>
     (sum_list (map (\<lambda>(a, b). a * b) (zip v w)))\<^sup>2
       \<le> sum_list (map (\<lambda>a. a ^ 2) v) * sum_list (map (\<lambda>a. a ^ 2) (w :: real list))"
proof (induction v w rule: list_induct2)
  case Nil
  show ?case by simp
next
  case (Cons x xs y ys)
  then show ?case
    using cauchy_step [OF Cons.IH sum_squares_nonneg sum_squares_nonneg, of x y] by simp
qed

lemma dot_le_magnitudes:
  assumes "length v = length w"
  shows "\<bar>sum_list (map (\<lambda>(a, b). a * b) (zip v w))\<bar> \<le> magnitude v * magnitude w"
proof -
  have "sqrt ((sum_list (map (\<lambda>(a, b). a * b) (zip v w)))\<^sup>2)
      \<le> sqrt (sum_list (map (\<lambda>a. a ^ 2) v) * sum_list (map (\<lambda>a. a ^ 2) w))"
    using cauchy_schwarz_list [OF assms] by (rule real_sqrt_le_mono)
  then show ?thesis by (simp add: magnitude_def real_sqrt_mult)
qed

lemma cosine_in_range:
  assumes "length v = length w" "magnitude v \<noteq> 0" "magnitude w \<noteq> 0"
  shows "- 1 \<le> sum_list (map (\<lambda>(a, b). a * b) (zip v w)) / (magnitude v * magnitude w)"
    and "sum_list (map (\<lambda>(a, b). a * b) (zip v w)) / (magnitude v * magnitude w) \<le> 1"
proof -
  have pos: "0 < magnitude v * magnitude w"
    using assms(2,3) magnitude_nonneg [of v] magnitude_nonneg [of w] by (simp add: less_le)
  have "\<bar>sum_list (map (\<lambda>(a, b). a * b) (zip v w))\<bar> \<le> magnitude v * magnitude w"
    by (rule dot_le_magnitudes [OF assms(1)])
  then have lo: "- (magnitude v * magnitude w) \<le> sum_list (map (\<lambda>(a, b). a * b) (zip v w))"
    and hi: "sum_list (map (\<lambda>(a, b). a * b) (zip v w)) \<le> magnitude v * magnitude w"
    by linarith+
  show "- 1 \<le> sum_list (map (\<lambda>(a, b). a * b) (zip v w)) / (magnitude v * magnitude w)"
    using lo pos by (simp only: le_divide_eq) simp
  show "sum_list (map (\<lambda>(a, b). a * b) (zip v w)) / (magnitude v * magnitude w) \<le> 1"
    using hi pos by (simp only: divide_le_eq) simp
qed

lemma py_round_ndigits_le_1: "x \<le> 1 \<Longrightarrow> py_round_ndigits x n \<le> 1"
proof -
  assume "x \<le> 1"
  then have "x * 10 ^ n \<le> of_int (10 ^ n)" by simp
  then have "py_round (x * 10 ^ n) \<le> 10 ^ n"
    using py_round_mono [of "x * 10 ^ n" "of_int (10 ^ n)"] by (simp only: py_round_of_int)
  then have "(of_int (py_round (x * 10 ^ n)) :: real) \<le> of_int (10 ^ n)"
    by (simp only: of_int_le_iff)
  then show ?thesis by (simp add: py_round_ndigits_def)
qed

lemma py_round_ndigits_ge_m1: "- 1 \<le> x \<Longrightarrow> - 1 \<le> py_round_ndigits x n"
proof -
  assume "- 1 \<le> x"
  then have "of_int (- (10 ^ n)) \<le> x * 10 ^ n"
    using mult_right_mono [of "- 1" x "10 ^ n"] by simp
  then have "- (10 ^ n) \<le> py_round (x * 10 ^ n)"
    using py_round_mono [of "of_int (- (10 ^ n))" "x * 10 ^ n"] by (simp only: py_round_of_int)
  then have "(of_int (- (10 ^ n)) :: real) \<le> of_int (py_round (x * 10 ^ n))"
    by (simp only: of_int_le_iff)
  then show ?thesis by (simp add: py_round_ndigits_def field_simps)
qed

lemma angle_vectors_nonzero:
  assumes "length v = length w" "magnitude v \<noteq> 0" "magnitude w \<noteq> 0"
  shows "angle_vectors v w =
      Inr (arccos (py_round_ndigits
        (sum_list (map (\<lambda>(a, b). a * b) (zip v w)) / (magnitude v * magnitude w)) 5))"
proof -
  let ?q = "sum_list (map (\<lambda>(a, b). a * b) (zip v w)) / (magnitude v * magnitude w)"
  have "- 1 \<le> ?q" "?q \<le> 1"
    using cosine_in_range [OF assms] by simp_all
  then have "- 1 \<le> py_round_ndigits ?q 5" "py_round_ndigits ?q 5 \<le> 1"
    by (simp_all add: py_round_ndigits_le_1 py_round_ndigits_ge_m1)
  then show ?thesis
    using assms by (simp add: angle_vectors_def dot_product_def py_div_def py_acos_def bind_err_def)
qed

lemma angle_vectors_total:
  assumes "length v = length w"
  shows "\<exists>a. angle_vectors v w = Inr a \<and> 0 \<le> a \<and> a \<le> pi"
proof (cases "magnitude v = 0 \<or> magnitude w = 0")
  case True
  with assms show ?thesis by (simp add: angle_vectors_def)
next
  case False
  let ?q = "sum_list (map (\<lambda>(a, b). a * b) (zip v w)) / (magnitude v * magnitude w)"
  from False have nz: "magnitude v \<noteq> 0" "magnitude w \<noteq> 0" by simp_all
  have "- 1 \<le> ?q" "?q \<le> 1"
    using cosine_in_range [OF assms nz] by simp_all
  then have "- 1 \<le> py_round_ndigits ?q 5" "py_round_ndigits ?q 5 \<le> 1"
    by (simp_all add: py_round_ndigits_le_1 py_round_ndigits_ge_m1)
  then show ?thesis
    using angle_vectors_nonzero [OF assms nz] by (simp add: arccos_lbound arccos_ubound)
qed

text \<open>
  In exact arithmetic the acos argument is always in range: for vectors \<open>v\<close>, \<open>w\<close> of equal
  length and nonzero magnitude, the dot product and the division succeed, the quotient
  rounded to 5 decimal places lies in \<open>[-1, 1]\<close>, and \<^verbatim>\<open>angle_vectors\<close> returns the arc cosine
  of the rounded quotient.
\<close>

theorem angle_vectors_acos_argument:
  assumes "length v = length w" "magnitude v \<noteq> 0" "magnitude w \<noteq> 0"
  shows "\<exists>d q. dot_product v w = Inr d
           \<and> py_div d (magnitude v * magnitude w) = Inr q
           \<and> - 1 \<le> py_round_ndigits q 5 \<and> py_round_ndigits q 5 \<le> 1
           \<and> py_acos (py_round_ndigits q 5) = Inr (arccos (py_round_ndigits q 5))
           \<and> angle_vectors v w = Inr (arccos (py_round_ndigits q 5))"
proof -
  let ?d = "sum_list (map (\<lambda>(a, b). a * b) (zip v w))"
  let ?q = "?d / (magnitude v * magnitude w)"
  have "- 1 \<le> ?q" "?q \<le> 1"
    using cosine_in_range [OF assms] by simp_all
  then have r: "- 1 \<le> py_round_ndigits ?q 5" "py_round_ndigits ?q 5 \<le> 1"
    by (simp_all add: py_round_ndigits_le_1 py_round_ndigits_ge_m1)
  have "dot_product v w = Inr ?d" using assms(1) by (simp add: dot_product_def)
  moreover have "py_div ?d (magnitude v * magnitude w) = Inr ?q"
    using assms(2,3) by (simp add: py_div_def)
  moreover have "py_acos (py_round_ndigits ?q 5) = Inr (arccos (py_round_ndigits ?q 5))"
    using r by (simp add: py_acos_def)
  ultimately show ?thesis
    using r angle_vectors_nonzero [OF assms] by blast
qed

theorem angle_vectors_acos_argument_witness:
  "\<exists>d q. dot_product [1, 0, 0] [1, 1, 1] = Inr d
           \<and> py_div d (magnitude [1, 0, 0] * magnitude [1, 1, 1]) = Inr q
           \<and> - 1 \<le> py_round_ndigits q 5 \<and> py_round_ndigits q 5 \<le> 1
           \<and> py_acos (py_round_ndigits q 5) = Inr (arccos (py_round_ndigits q 5))
           \<and> angle_vectors [1, 0, 0] [1, 1, 1] = Inr (arccos (py_round_ndigits q 5))"
  using angle_vectors_acos_argument [of "[1, 0, 0]" "[1, 1, 1]"]
  by (simp add: magnitude_def)


section \<open>Direction and bearing\<close>

lemma cross_product3:
  "cross_product [a, b, c] [d, e, f] = Inr [b * f - c * e, c * d - a * f, a * e - b * d]"
  by (simp add: cross_product_def)

lemma north_tangent3:
  "bind_err (cross_product [x, y, z] [0, 0, 1]) (\<lambda>n. cross_product n [x, y, z])
     = Inr [- (x * z), - (y * z), y * y + x * x]"
  by (simp add: cross_product3 bind_err_def)

lemma magnitude_zero3: "magnitude [0, 0, 0] = 0"
  by (simp add: magnitude_def)

lemma direction3:
  assumes "to_vector lat1 long1 = Inr [x, y, z]" "to_vector lat2 long2 = Inr [p, q, r]"
  shows "\<exists>a b c. direction_between_coordinates lat1 long1 lat2 long2 = Inr [a, b, c]"
  using assms
  by (simp add: direction_between_coordinates_def bind_err_def cross_product3)

lemma to_vector_valid3:
  assumes "- 90 \<le> lat" "lat \<le> 90" "- 180 \<le> long" "long \<le> 180"
  shows "\<exists>x y z. to_vector lat long = Inr [x, y, z]"
  using assms by (simp add: to_vector_Inr)

lemma degrees_range: "0 \<le> a \<Longrightarrow> a \<le> pi \<Longrightarrow> 0 \<le> degrees a \<and> degrees a \<le> 180"
  by (simp add: degrees_def field_simps)

lemma bearing_structure:
  assumes "- 90 \<le> lat1" "lat1 \<le> 90" "- 180 \<le> long1" "long1 \<le> 180"
      and "- 90 \<le> lat2" "lat2 \<le> 90" "- 180 \<le> long2" "long2 \<le> 180"
  shows "\<exists>u. unsigned_bearing_spec lat1 long1 lat2 long2 = Inr u \<and> 0 \<le> u \<and> u \<le> 180
           \<and> bearing_between_coordinates lat1 long1 lat2 long2
               = Inr (if long2 < long1 then 360 - u else u)"
proof -
  obtain x y z where v: "to_vector lat1 long1 = Inr [x, y, z]"
    using to_vector_valid3 [OF assms(1-4)] by blast
  obtain p q r where w: "to_vector lat2 long2 = Inr [p, q, r]"
    using to_vector_valid3 [OF assms(5-8)] by blast
  obtain a b c where d: "direction_between_coordinates lat1 long1 lat2 long2 = Inr [a, b, c]"
    using direction3 [OF v w] by blast
  let ?north = "[- (x * z), - (y * z), y * y + x * x]"
  obtain t where t: "angle_vectors [a, b, c] ?north = Inr t" "0 \<le> t" "t \<le> pi"
    using angle_vectors_total [of "[a, b, c]" ?north] by auto
  have "unsigned_bearing_spec lat1 long1 lat2 long2 = Inr (degrees t)"
    by (simp add: unsigned_bearing_spec_def north_tangent_spec_def v d cross_product3 bind_err_def t)
  moreover have "bearing_between_coordinates lat1 long1 lat2 long2
      = Inr (if long2 < long1 then 360 - degrees t else degrees t)"
    by (simp add: bearing_between_coordinates_def v d cross_product3 bind_err_def t)
  ultimately show ?thesis
    using degrees_range [OF t(2,3)] by simp
qed

lemma bearing_eq_spec:
  "bearing_between_coordinates lat1 long1 lat2 long2 = bearing_spec lat1 long1 lat2 long2"
  by (simp add: bearing_between_coordinates_def bearing_spec_def unsigned_bearing_spec_def
      north_tangent_spec_def bind_err_def Let_def split: sum.splits)

lemma radians_90: "radians 90 = pi / 2" and radians_m90: "radians (- 90) = - (pi / 2)"
  and radians_0: "radians 0 = 0" and radians_m180: "radians (- 180) = - pi"
  and radians_180: "radians 180 = pi"
  by (simp_all add: radians_def)

lemma R_pos: "0 < R"
  by (simp add: R_def)

lemma to_vector_0_0: "to_vector 0 0 = Inr [R, 0, 0]"
  by (simp add: to_vector_def radians_0)

lemma to_vector_0_m180: "to_vector 0 (- 180) = Inr [- R, 0, 0]"
  by (simp add: to_vector_def radians_0 radians_m180)

lemma py_round_ndigits_1: "py_round_ndigits 1 5 = 1"
proof -
  have "py_round (of_int 100000) = 100000" by (rule py_round_of_int)
  then show ?thesis by (simp add: py_round_ndigits_def)
qed

lemma angle_vectors_same_z:
  assumes "0 < c"
  shows "angle_vectors [0, 0, c] [0, 0, c] = Inr 0"
proof -
  have m: "magnitude [0, 0, c] = c" using assms by (simp add: magnitude_def)
  show ?thesis
    using assms
    by (simp add: angle_vectors_nonzero m py_round_ndigits_1)
qed

lemma direction_0_0_0_m180: "direction_between_coordinates 0 0 0 (- 180) = Inr [0, 0, R * R]"
  by (simp add: direction_between_coordinates_def to_vector_0_0 to_vector_0_m180 bind_err_def
      cross_product3 magnitude_zero3)

text \<open>
  Claim C1 says that the bearing of valid coordinates lies in \<open>[0, 360)\<close>. From
  \<open>(0, 0)\<close> to the antipodal point \<open>(0, -180)\<close> the direction falls back to the north tangent,
  the unsigned bearing is 0, \<open>long2 < long1\<close>, and the result is \<open>360 - 0 = 360\<close>.
\<close>

theorem bearing_360_counterexample:
  "bearing_between_coordinates 0 0 0 (- 180) = Inr 360"
proof -
  have "angle_vectors [0, 0, R * R] [0, 0, R * R] = Inr 0"
    using R_pos by (intro angle_vectors_same_z) simp
  then show ?thesis
    by (simp add: bearing_between_coordinates_def to_vector_0_0 direction_0_0_0_m180
        bind_err_def cross_product3 degrees_def)
qed

text \<open>
  Claim C1, amended. For every valid input \<^verbatim>\<open>bearing_between_coordinates\<close> returns a value
  in the closed interval \<open>[0, 360]\<close>.
\<close>

theorem bearing_closed_range:
  assumes "- 90 \<le> lat1" "lat1 \<le> 90" "- 180 \<le> long1" "long1 \<le> 180"
      and "- 90 \<le> lat2" "lat2 \<le> 90" "- 180 \<le> long2" "long2 \<le> 180"
  shows "\<exists>b. bearing_between_coordinates lat1 long1 lat2 long2 = Inr b \<and> 0 \<le> b \<and> b \<le> 360"
  using bearing_structure [OF assms] by auto

theorem bearing_closed_range_witness:
  "\<exists>b. bearing_between_coordinates 15 (- 28) 40 3 = Inr b \<and> 0 \<le> b \<and> b \<le> 360"
  using bearing_closed_range [of 15 "- 28" 40 3] by simp

lemma direction_same_point:
  assumes "to_vector lat long = Inr [x, y, z]"
  shows "direction_between_coordinates lat long lat long = Inr [- (x * z), - (y * z), y * y + x * x]"
  using assms
  by (simp add: direction_between_coordinates_def bind_err_def cross_product3 magnitude_zero3)

text \<open>
  Claim C7 says that the zero-magnitude convention of \<^verbatim>\<open>angle_vectors\<close> is the only case
  in which a geometrically undefined input yields a default value instead of an error.
  There is a second one: the direction from a point to itself is undefined (the tangent
  \<open>cross(cross(v, v), v)\<close> is the zero vector), and \<^verbatim>\<open>direction_between_coordinates\<close>
  returns the north tangent \<open>(0, 0, R\<^sup>2)\<close> for it, without an error and without any call
  of \<^verbatim>\<open>angle_vectors\<close>.
\<close>

theorem direction_default_counterexample:
  "to_vector 0 0 = Inr [6371, 0, 0]
   \<and> cross_product [6371, 0, 0] [6371, 0, 0] = Inr [0, 0, 0]
   \<and> cross_product [0, 0, 0] [6371, 0, 0] = Inr [0, 0, 0]
   \<and> direction_between_coordinates 0 0 0 0 = Inr [0, 0, 40589641]"
  using direction_same_point [OF to_vector_0_0]
  by (simp add: to_vector_0_0 cross_product3) (simp add: R_def)

section \<open>Numeric bounds for the sample bearings\<close>

lemma cos_maclaurin_bound:
  "\<bar>cos x - (\<Sum>m<n. cos_coeff m * x ^ m)\<bar> \<le> \<bar>x\<bar> ^ n / fact n"
proof -
  obtain t where t: "cos x = (\<Sum>m<n. cos_coeff m * x ^ m) + (cos (t + 1 / 2 * real n * pi) / fact n) * x ^ n"
    using Maclaurin_cos_expansion [of x n] by blast
  have "\<bar>cos x - (\<Sum>m<n. cos_coeff m * x ^ m)\<bar> = \<bar>cos (t + 1 / 2 * real n * pi)\<bar> * \<bar>x\<bar> ^ n / fact n"
    using t by (simp add: abs_mult power_abs)
  also have "\<dots> \<le> 1 * \<bar>x\<bar> ^ n / fact n"
    by (intro divide_right_mono mult_right_mono) simp_all
  finally show ?thesis by simp
qed

lemma cos_poly10:
  "(\<Sum>m<10. cos_coeff m * x ^ m) = 1 - x\<^sup>2 / 2 + x ^ 4 / 24 - x ^ 6 / 720 + x ^ 8 / 40320"
  by (simp add: lessThan_nat_numeral lessThan_Suc cos_coeff_def fact_numeral)

lemma cos_poly12:
  "(\<Sum>m<12. cos_coeff m * x ^ m)
     = 1 - x\<^sup>2 / 2 + x ^ 4 / 24 - x ^ 6 / 720 + x ^ 8 / 40320 - x ^ 10 / 3628800"
  by (simp add: lessThan_nat_numeral lessThan_Suc cos_coeff_def fact_numeral)

lemma cos_remainder10:
  "\<bar>cos x - (1 - x\<^sup>2 / 2 + x ^ 4 / 24 - x ^ 6 / 720 + x ^ 8 / 40320)\<bar> \<le> x ^ 10 / 3628800"
  for x :: real
proof -
  have "\<bar>x\<bar> ^ 10 = x ^ 10" by (simp add: power_even_abs)
  moreover have "(fact 10 :: real) = 3628800" by (simp add: fact_numeral)
  ultimately show ?thesis
    using cos_maclaurin_bound [of x 10] by (simp only: cos_poly10)
qed

lemma cos_remainder12:
  "\<bar>cos x - (1 - x\<^sup>2 / 2 + x ^ 4 / 24 - x ^ 6 / 720 + x ^ 8 / 40320 - x ^ 10 / 3628800)\<bar>
     \<le> x ^ 12 / 479001600"
  for x :: real
proof -
  have "\<bar>x\<bar> ^ 12 = x ^ 12" by (simp add: power_even_abs)
  moreover have "(fact 12 :: real) = 479001600" by (simp add: fact_numeral)
  ultimately show ?thesis
    using cos_maclaurin_bound [of x 12] by (simp only: cos_poly12)
qed

lemma cos_lower10:
  "1 - x\<^sup>2 / 2 + x ^ 4 / 24 - x ^ 6 / 720 + x ^ 8 / 40320 - x ^ 10 / 3628800 \<le> cos x"
  for x :: real
  using cos_remainder10 [of x] by linarith

lemma cos_upper10:
  "cos x \<le> 1 - x\<^sup>2 / 2 + x ^ 4 / 24 - x ^ 6 / 720 + x ^ 8 / 40320 + x ^ 10 / 3628800"
  for x :: real
  using cos_remainder10 [of x] by linarith

lemma cos_lower12:
  "1 - x\<^sup>2 / 2 + x ^ 4 / 24 - x ^ 6 / 720 + x ^ 8 / 40320 - x ^ 10 / 3628800
     - x ^ 12 / 479001600 \<le> cos x"
  for x :: real
  using cos_remainder12 [of x] by linarith

lemma cos_upper12:
  "cos x \<le> 1 - x\<^sup>2 / 2 + x ^ 4 / 24 - x ^ 6 / 720 + x ^ 8 / 40320 - x ^ 10 / 3628800
     + x ^ 12 / 479001600"
  for x :: real
  using cos_remainder12 [of x] by linarith

lemma cos_15708_neg: "cos (15708 / 10000 :: real) < 0"
proof -
  have "cos (15708 / 10000 :: real) \<le> - (1 / 1000000)"
    by (rule order_trans [OF cos_upper12]) (simp add: power_divide)
  then show ?thesis by simp
qed

lemma cos_157075_pos: "0 < cos (157075 / 100000 :: real)"
proof -
  have "1 / 1000000 \<le> cos (157075 / 100000 :: real)"
    by (rule order_trans [OF _ cos_lower12]) (simp add: power_divide)
  then show ?thesis by simp
qed

lemma pi_upper: "pi < 31416 / 10000"
proof (rule ccontr)
  assume "\<not> pi < 31416 / 10000"
  then have "15708 / 10000 \<le> pi / 2" by simp
  then have "0 \<le> cos (15708 / 10000 :: real)" by (intro cos_ge_zero) simp_all
  with cos_15708_neg show False by simp
qed

lemma pi_lower: "31415 / 10000 < pi"
proof (rule ccontr)
  assume "\<not> 31415 / 10000 < pi"
  then have le: "pi / 2 \<le> 157075 / 100000" by simp
  have "157075 / 100000 \<le> pi" using pi_ge_two by simp
  then have "cos (157075 / 100000 :: real) \<le> cos (pi / 2)"
    using le by (intro cos_monotone_0_pi_le) simp_all
  with cos_157075_pos show False by simp
qed

lemma cos_95531: "57735 / 100000 < cos (95531 / 100000 :: real)"
proof -
  have "57735 / 100000 + 1 / 1000000 \<le> cos (95531 / 100000 :: real)"
    by (rule order_trans [OF _ cos_lower10]) (simp add: power_divide)
  then show ?thesis by simp
qed

lemma cos_9554: "cos (9554 / 10000 :: real) < 57735 / 100000"
proof -
  have "cos (9554 / 10000 :: real) \<le> 57735 / 100000 - 1 / 100000"
    by (rule order_trans [OF cos_upper10]) (simp add: power_divide)
  then show ?thesis by simp
qed

lemma arccos_57735_bounds:
  "95531 / 100000 < arccos (57735 / 100000)" "arccos (57735 / 100000) < 9554 / 10000"
proof -
  let ?c = "57735 / 100000 :: real"
  have c: "- 1 \<le> ?c" "?c \<le> 1" by simp_all
  have a: "0 \<le> arccos ?c" "arccos ?c \<le> pi" "cos (arccos ?c) = ?c"
    using arccos [OF c] by simp_all
  have p: "(95531 / 100000 :: real) \<le> pi" "(9554 / 10000 :: real) \<le> pi"
    using pi_ge_two by simp_all
  have "cos (arccos ?c) < cos (95531 / 100000)" using cos_95531 a(3) by simp
  then show "95531 / 100000 < arccos ?c"
    using cos_mono_less_eq [of "arccos ?c" "95531 / 100000"] a p by simp
  have "cos (9554 / 10000) < cos (arccos ?c)" using cos_9554 a(3) by simp
  then show "arccos ?c < 9554 / 10000"
    using cos_mono_less_eq [of "9554 / 10000" "arccos ?c"] a p by simp
qed

lemma degrees_arccos_57735:
  "54735 / 1000 < degrees (arccos (57735 / 100000))"
  "degrees (arccos (57735 / 100000)) < 54745 / 1000"
proof -
  let ?a = "arccos (57735 / 100000)"
  have "54735 / 1000 * pi < ?a * 180"
    using arccos_57735_bounds(1) pi_upper by linarith
  then show "54735 / 1000 < degrees ?a"
    by (simp add: degrees_def pos_less_divide_eq)
  have "?a * 180 < 54745 / 1000 * pi"
    using arccos_57735_bounds(2) pi_lower by linarith
  then show "degrees ?a < 54745 / 1000"
    by (simp add: degrees_def pos_divide_less_eq)
qed

lemma sqrt3_bounds: "17320508 / 10000000 < sqrt 3" "sqrt 3 < 17320509 / 10000000"
  by (rule real_less_rsqrt, simp add: power2_eq_square) (rule real_less_lsqrt, simp_all add: power2_eq_square)

lemma round_inv_sqrt3: "py_round_ndigits (1 / sqrt 3) 5 = 57735 / 100000"
proof -
  have pos: "0 < sqrt 3" by simp
  have "577345 / 10 * sqrt 3 < 100000" "100000 < 577355 / 10 * sqrt 3"
    using sqrt3_bounds by linarith+
  then have "577345 / 10 < 100000 / sqrt 3" "100000 / sqrt 3 < 577355 / 10"
    using pos by (simp_all add: pos_less_divide_eq pos_divide_less_eq)
  then have "py_round (1 / sqrt 3 * 10 ^ 5) = 57735"
    by (intro py_round_eqI) simp_all
  then show ?thesis by (simp add: py_round_ndigits_def)
qed

section \<open>The bearing against section 4.5\<close>

lemma radians_45: "radians 45 = pi / 4"
  by (simp add: radians_def)

lemma to_vector_45_0: "to_vector 45 0 = Inr [R * sqrt 2 / 2, 0, R * sqrt 2 / 2]"
  by (simp add: to_vector_def radians_45 radians_0 cos_45 sin_45)

lemma to_vector_45_90: "to_vector 45 90 = Inr [0, R * sqrt 2 / 2, R * sqrt 2 / 2]"
  by (simp add: to_vector_def radians_45 radians_90 cos_45 sin_45)

lemma to_vector_45_m90: "to_vector 45 (- 90) = Inr [0, - (R * sqrt 2 / 2), R * sqrt 2 / 2]"
  by (simp add: to_vector_def radians_45 radians_m90 cos_45 sin_45)

lemma half_diagonal_ge_1: "1 \<le> R * sqrt 2 / 2"
proof -
  have "(1 :: real) \<le> sqrt 2" by simp
  then have "2 \<le> 6371 * sqrt 2" by linarith
  then show ?thesis by (simp add: R_def)
qed

lemma sqrt_6_k6: "0 \<le> k \<Longrightarrow> sqrt (6 * k ^ 6) = sqrt 6 * k ^ 3"
proof -
  assume "0 \<le> k"
  have "k ^ 6 = (k ^ 3)\<^sup>2" by (simp add: power_even_eq)
  then have "sqrt (k ^ 6) = \<bar>k ^ 3\<bar>" by (simp only: real_sqrt_abs)
  with \<open>0 \<le> k\<close> show ?thesis by (simp add: real_sqrt_mult)
qed

lemma sqrt_2_k4: "sqrt (2 * k ^ 4) = sqrt 2 * k\<^sup>2"
proof -
  have "k ^ 4 = (k\<^sup>2)\<^sup>2" by (simp add: power_even_eq)
  then have "sqrt (k ^ 4) = \<bar>k\<^sup>2\<bar>" by (simp only: real_sqrt_abs)
  then show ?thesis by (simp add: real_sqrt_mult)
qed

lemma sqrt_6_2: "sqrt 6 * sqrt 2 = 2 * sqrt 3"
proof -
  have "sqrt 6 * sqrt 2 = sqrt (4 * 3)" by (simp add: real_sqrt_mult [symmetric])
  also have "\<dots> = sqrt 4 * sqrt 3" by (rule real_sqrt_mult)
  also have "sqrt 4 = 2" using real_sqrt_abs [of 2] by simp
  finally show ?thesis .
qed

lemma magnitude_direction_sample:
  assumes "0 \<le> k" "s = 1 \<or> s = - 1"
  shows "magnitude [- (k ^ 3), 2 * s * k ^ 3, k ^ 3] = sqrt 6 * k ^ 3"
proof -
  have "s\<^sup>2 = 1" using assms(2) by auto
  then have "(- (k ^ 3))\<^sup>2 + (2 * s * k ^ 3)\<^sup>2 + (k ^ 3)\<^sup>2 = 6 * k ^ 6"
    by (simp add: power_mult_distrib)
  then show ?thesis using sqrt_6_k6 [OF assms(1)] by (simp add: magnitude3)
qed

lemma magnitude_north_sample: "magnitude [- (k\<^sup>2), 0, k\<^sup>2] = sqrt 2 * k\<^sup>2"
proof -
  have "(- (k\<^sup>2))\<^sup>2 + 0\<^sup>2 + (k\<^sup>2)\<^sup>2 = 2 * k ^ 4" by simp
  then show ?thesis using sqrt_2_k4 [of k] by (simp add: magnitude3)
qed

lemma angle_sample:
  assumes "0 < k" "s = 1 \<or> s = - 1"
  shows "angle_vectors [- (k ^ 3), 2 * s * k ^ 3, k ^ 3] [- (k\<^sup>2), 0, k\<^sup>2]
           = Inr (arccos (57735 / 100000))"
proof -
  let ?w = "[- (k ^ 3), 2 * s * k ^ 3, k ^ 3]" and ?n = "[- (k\<^sup>2), 0, k\<^sup>2]"
  have mw: "magnitude ?w = sqrt 6 * k ^ 3"
    using assms by (intro magnitude_direction_sample) simp_all
  have mn: "magnitude ?n = sqrt 2 * k\<^sup>2" by (rule magnitude_north_sample)
  have dot: "sum_list (map (\<lambda>(a, b). a * b) (zip ?w ?n)) = 2 * k ^ 5"
    by (simp add: power2_eq_square power3_eq_cube eval_nat_numeral)
  have "2 * k ^ 5 / (sqrt 6 * k ^ 3 * (sqrt 2 * k\<^sup>2)) = 2 * k ^ 5 / ((sqrt 6 * sqrt 2) * k ^ 5)"
    by (simp add: power2_eq_square power3_eq_cube eval_nat_numeral)
  also have "\<dots> = 1 / sqrt 3" using assms(1) by (simp add: sqrt_6_2)
  finally have q: "2 * k ^ 5 / (sqrt 6 * k ^ 3 * (sqrt 2 * k\<^sup>2)) = 1 / sqrt 3" .
  have "magnitude ?w \<noteq> 0" "magnitude ?n \<noteq> 0" using assms(1) by (simp_all add: mw mn)
  then have "angle_vectors ?w ?n =
      Inr (arccos (py_round_ndigits (sum_list (map (\<lambda>(a, b). a * b) (zip ?w ?n))
                                       / (magnitude ?w * magnitude ?n)) 5))"
    by (intro angle_vectors_nonzero) simp_all
  then show ?thesis
    by (simp only: dot mw mn q round_inv_sqrt3)
qed

lemma direction_sample:
  assumes "to_vector lat1 long1 = Inr [k, 0, k]" "to_vector lat2 long2 = Inr [0, s * k, k]"
      and "1 \<le> k" "s = 1 \<or> s = - 1"
  shows "direction_between_coordinates lat1 long1 lat2 long2
           = Inr [- (k ^ 3), 2 * s * k ^ 3, k ^ 3]"
proof -
  have c: "cross_product [k, 0, k] [0, s * k, k] = Inr [- (s * k\<^sup>2), - (k\<^sup>2), s * k\<^sup>2]"
    by (simp add: cross_product3 power2_eq_square)
  have "s\<^sup>2 = 1" using assms(4) by auto
  then have "s * s = 1" by (simp add: power2_eq_square)
  then have r: "cross_product [- (s * k\<^sup>2), - (k\<^sup>2), s * k\<^sup>2] [k, 0, k]
      = Inr [- (k ^ 3), 2 * s * k ^ 3, k ^ 3]"
    using assms(4) by (auto simp: cross_product3 power2_eq_square power3_eq_cube)
  have "1 \<le> k ^ 3" using assms(3) by simp
  then have "1 \<le> sqrt 6 * k ^ 3"
    using mult_mono [of 1 "sqrt 6" 1 "k ^ 3"] by simp
  then have "\<not> magnitude [- (k ^ 3), 2 * s * k ^ 3, k ^ 3] < 1"
    using magnitude_direction_sample [of k s] assms(3,4) by simp
  then show ?thesis
    by (simp add: direction_between_coordinates_def assms(1,2) bind_err_def c r)
qed

lemma bearing_sample:
  assumes "to_vector lat1 long1 = Inr [k, 0, k]" "to_vector lat2 long2 = Inr [0, s * k, k]"
      and "1 \<le> k" "s = 1 \<or> s = - 1"
  shows "bearing_between_coordinates lat1 long1 lat2 long2
           = Inr (if long2 < long1 then 360 - degrees (arccos (57735 / 100000))
                  else degrees (arccos (57735 / 100000)))"
proof -
  have c1: "cross_product [k, 0, k] [0, 0, 1] = Inr [0, - k, 0]"
    by (simp add: cross_product3)
  have c2: "cross_product [0, - k, 0] [k, 0, k] = Inr [- (k\<^sup>2), 0, k\<^sup>2]"
    by (simp add: cross_product3 power2_eq_square)
  have a: "angle_vectors [- (k ^ 3), 2 * s * k ^ 3, k ^ 3] [- (k\<^sup>2), 0, k\<^sup>2]
      = Inr (arccos (57735 / 100000))"
    using assms(3,4) by (intro angle_sample) simp_all
  show ?thesis
    by (simp only: bearing_between_coordinates_def assms(1) direction_sample [OF assms]
        bind_err_def sum.case c1 c2 a Let_def)
qed

lemma bearing_45_0_45_90:
  "bearing_between_coordinates 45 0 45 90 = Inr (degrees (arccos (57735 / 100000)))"
proof -
  have "to_vector 45 90 = Inr [0, 1 * (R * sqrt 2 / 2), R * sqrt 2 / 2]"
    by (simp add: to_vector_45_90)
  from bearing_sample [OF to_vector_45_0 this half_diagonal_ge_1] show ?thesis by simp
qed

lemma bearing_45_0_45_m90:
  "bearing_between_coordinates 45 0 45 (- 90) = Inr (360 - degrees (arccos (57735 / 100000)))"
proof -
  have "to_vector 45 (- 90) = Inr [0, - 1 * (R * sqrt 2 / 2), R * sqrt 2 / 2]"
    by (simp add: to_vector_45_m90)
  from bearing_sample [OF to_vector_45_0 this half_diagonal_ge_1] show ?thesis by simp
qed

text \<open>
  Claim C3. For every pair of valid coordinates \<^verbatim>\<open>bearing_between_coordinates\<close> equals the
  algorithm of section 4.5: with \<open>v = to_vector(lat1, long1)\<close>,
  \<open>north_vector = cross(cross(v, (0,0,1)), v)\<close> and \<open>w = direction_between_coordinates(\<dots>)\<close>,
  the unsigned bearing \<open>degrees(angle_vectors(w, north_vector))\<close> is defined and lies in
  \<open>[0, 180]\<close>, and the result is 360 minus the unsigned bearing when \<open>long2 < long1\<close> and the
  unsigned bearing itself otherwise. The two sample values agree with 54.74 and 305.26 to
  the two decimals given (both are within 0.005).
\<close>

theorem bearing_follows_section_4_5:
  assumes "- 90 \<le> lat1" "lat1 \<le> 90" "- 180 \<le> long1" "long1 \<le> 180"
      and "- 90 \<le> lat2" "lat2 \<le> 90" "- 180 \<le> long2" "long2 \<le> 180"
  shows "bearing_between_coordinates lat1 long1 lat2 long2 = bearing_spec lat1 long1 lat2 long2
    \<and> (\<exists>u. unsigned_bearing_spec lat1 long1 lat2 long2 = Inr u \<and> 0 \<le> u \<and> u \<le> 180
          \<and> bearing_between_coordinates lat1 long1 lat2 long2
              = Inr (if long2 < long1 then 360 - u else u))
    \<and> (\<exists>b. bearing_between_coordinates 45 0 45 90 = Inr b \<and> \<bar>b - 5474 / 100\<bar> < 5 / 1000)
    \<and> (\<exists>b. bearing_between_coordinates 45 0 45 (- 90) = Inr b \<and> \<bar>b - 30526 / 100\<bar> < 5 / 1000)"
proof -
  let ?d = "degrees (arccos (57735 / 100000))"
  have "\<bar>?d - 5474 / 100\<bar> < 5 / 1000"
    using degrees_arccos_57735 by linarith
  then have s1: "\<exists>b. bearing_between_coordinates 45 0 45 90 = Inr b \<and> \<bar>b - 5474 / 100\<bar> < 5 / 1000"
    by (simp add: bearing_45_0_45_90)
  have "\<bar>360 - ?d - 30526 / 100\<bar> < 5 / 1000"
    using degrees_arccos_57735 by linarith
  then have s2: "\<exists>b. bearing_between_coordinates 45 0 45 (- 90) = Inr b
      \<and> \<bar>b - 30526 / 100\<bar> < 5 / 1000"
    by (simp add: bearing_45_0_45_m90)
  show ?thesis
    using bearing_eq_spec [of lat1 long1 lat2 long2] bearing_structure [OF assms] s1 s2
    by blast
qed

theorem bearing_follows_section_4_5_witness:
  "bearing_between_coordinates 45 0 45 (- 90) = bearing_spec 45 0 45 (- 90)
   \<and> (\<exists>u. unsigned_bearing_spec 45 0 45 (- 90) = Inr u \<and> 0 \<le> u \<and> u \<le> 180
         \<and> bearing_between_coordinates 45 0 45 (- 90) = Inr (360 - u))"
  using bearing_follows_section_4_5 [of 45 0 45 "- 90"] by auto


section \<open>The acos argument in double precision\<close>

lemma double_ulp_eq:
  assumes "2 powr of_int k \<le> \<bar>x\<bar>" "\<bar>x\<bar> < 2 powr of_int (k + 1)"
  shows "double_ulp x = 2 powr of_int (max (k - 52) (- 1074))"
proof -
  have "0 < \<bar>x\<bar>" using assms(1) by (rule less_le_trans [rotated]) simp
  then have "\<lfloor>log 2 \<bar>x\<bar>\<rfloor> = k"
    using assms by (simp add: floor_log_eq_powr_iff)
  then show ?thesis by (simp add: double_ulp_def)
qed

lemma to_double_eq:
  assumes "2 powr of_int k \<le> \<bar>x\<bar>" "\<bar>x\<bar> < 2 powr of_int (k + 1)"
  shows "to_double x = of_int (py_round (x / 2 powr of_int (max (k - 52) (- 1074))))
                         * 2 powr of_int (max (k - 52) (- 1074))"
proof -
  have "0 < \<bar>x\<bar>" using assms(1) by (rule less_le_trans [rotated]) simp
  then have "x \<noteq> 0" by simp
  then show ?thesis by (simp add: to_double_def double_ulp_eq [OF assms])
qed

lemma to_double_0: "to_double 0 = 0"
  by (simp add: to_double_def)

lemma to_double_subnormal:
  assumes "2 powr of_int j \<le> \<bar>c\<bar>" "\<bar>c\<bar> < 2 powr of_int (j + 1)" "j \<le> 51"
  shows "to_double (c * 2 powr (- 1074)) = of_int (py_round c) * 2 powr (- 1074)"
proof -
  let ?u = "(2 :: real) powr (- 1074)"
  have u: "0 < ?u" by simp
  have abs: "\<bar>c * ?u\<bar> = \<bar>c\<bar> * ?u" by (simp add: abs_mult)
  have lo: "2 powr of_int (j - 1074) \<le> \<bar>c * ?u\<bar>"
    unfolding abs using assms(1) u by (simp add: powr_diff powr_minus field_simps)
  have hi: "\<bar>c * ?u\<bar> < 2 powr of_int (j - 1074 + 1)"
    unfolding abs using assms(2) u by (simp add: powr_diff powr_add powr_minus field_simps)
  have e: "max (j - 1074 - 52) (- 1074) = - 1074" using assms(3) by simp
  show ?thesis
    using to_double_eq [OF lo hi] unfolding e by simp
qed

lemma half_ulp_square: "(2 powr (- 537)) * (2 powr (- 537)) = (2 :: real) powr (- 1074)"
  by (simp add: powr_add [symmetric])

lemma to_double_power_of_two:
  assumes "- 1022 \<le> k"
  shows "to_double (2 powr of_int k) = 2 powr of_int k"
proof -
  have lo: "2 powr of_int k \<le> \<bar>(2 :: real) powr of_int k\<bar>" by simp
  have hi: "\<bar>(2 :: real) powr of_int k\<bar> < 2 powr of_int (k + 1)" by (simp add: powr_add)
  have e: "max (k - 52) (- 1074) = k - 52" using assms by simp
  have "(2 :: real) powr of_int k / 2 powr of_int (k - 52) = of_int (2 ^ 52)"
    by (simp add: powr_diff)
  then have "py_round ((2 :: real) powr of_int k / 2 powr of_int (k - 52)) = 2 ^ 52"
    by (simp only: py_round_of_int)
  then show ?thesis
    using to_double_eq [OF lo hi] unfolding e by (simp add: powr_diff)
qed

lemma to_double_half_ulp: "to_double (2 powr (- 537)) = 2 powr (- 537)"
  using to_double_power_of_two [of "- 537"] by simp

lemma to_double_small_int:
  assumes "(2 :: real) powr of_int j \<le> of_int n" "of_int n < (2 :: real) powr of_int (j + 1)"
    and "j \<le> 51"
  shows "to_double (of_int n * 2 powr (- 1074)) = of_int n * 2 powr (- 1074)"
proof -
  have "0 < (of_int n :: real)" using assms(1) by (rule less_le_trans [rotated]) simp
  then have "\<bar>of_int n :: real\<bar> = of_int n" by simp
  then show ?thesis
    using to_double_subnormal [of j "of_int n"] assms by (simp only: py_round_of_int)
qed

lemma sum_double3: "sum_double [x, 0, 0] = to_double (to_double (to_double x))"
  by (simp add: sum_double_def)

lemma to_double_1u: "to_double (2 powr (- 1074)) = 2 powr (- 1074)"
  using to_double_small_int [of 0 1] by simp

lemma to_double_4u: "to_double (4 * 2 powr (- 1074)) = 4 * 2 powr (- 1074)"
  using to_double_small_int [of 2 4] by simp

lemma to_double_12u: "to_double (12 * 2 powr (- 1074)) = 12 * 2 powr (- 1074)"
  using to_double_small_int [of 3 12] by simp

lemma below_overflow: "x \<le> 1 \<Longrightarrow> \<not> 2 ^ 1024 \<le> x"
  for x :: real
proof -
  assume "x \<le> 1"
  moreover have "(1 :: real) < 2 ^ 1024" by (rule one_less_power) simp_all
  ultimately show ?thesis by linarith
qed

lemma small_units_le_1: "c \<le> 16 \<Longrightarrow> c * 2 powr (- 1074) \<le> 1"
  for c :: real
proof -
  assume c: "c \<le> 16"
  have "(2 :: real) powr (- 1074) \<le> 2 powr (- 4)" by (rule powr_mono) simp_all
  also have "(2 :: real) powr (- 4) = 1 / 16" by (simp add: powr_minus_divide)
  finally have u: "(2 :: real) powr (- 1074) \<le> 1 / 16" .
  have "c * 2 powr (- 1074) \<le> 16 * 2 powr (- 1074)"
    using c by (intro mult_right_mono) simp_all
  with u show ?thesis by linarith
qed

lemma pow2_double_0: "pow2_double 0 = Inr 0"
  by (simp add: pow2_double_def to_double_0 below_overflow)

lemma squares_double3:
  assumes "pow2_double a = Inr s"
  shows "squares_double [a, 0, 0] = Inr [s, 0, 0]"
  using assms by (simp add: bind_err_def pow2_double_0)

lemma magnitude_double_v: "magnitude_double [2 powr (- 537), 0, 0] = Inr (2 powr (- 537))"
proof -
  let ?h = "(2 :: real) powr (- 537)" and ?u = "(2 :: real) powr (- 1074)"
  have sq: "?h\<^sup>2 = ?u" by (simp only: power2_eq_square half_ulp_square)
  have "\<not> 2 ^ 1024 \<le> ?u"
    using small_units_le_1 [of 1] by (intro below_overflow) simp
  then have p: "pow2_double ?h = Inr ?u"
    by (simp only: pow2_double_def sq to_double_1u if_False)
  have "sqrt ?u = ?h" by (rule real_sqrt_unique) (simp_all add: sq)
  then show ?thesis
    by (simp only: magnitude_double_def squares_double3 [OF p] bind_err_def sum.case
        sum_double3 to_double_1u to_double_half_ulp)
qed

lemma w_component: "225 * 2 powr (- 543) = 225 / 64 * (2 :: real) powr (- 537)"
proof -
  have "(2 :: real) powr (- 543) = 2 powr (- 537) * 2 powr (- 6)"
    by (simp add: powr_add [symmetric])
  also have "(2 :: real) powr (- 6) = 1 / 64" by (simp add: powr_minus_divide)
  finally show ?thesis by simp
qed

lemma w_square: "(225 * 2 powr (- 543))\<^sup>2 = 50625 / 4096 * (2 :: real) powr (- 1074)"
proof -
  have "(225 / 64 * (2 :: real) powr (- 537))\<^sup>2
      = 50625 / 4096 * (2 powr (- 537) * 2 powr (- 537))"
    by (simp add: power2_eq_square)
  then show ?thesis by (simp only: w_component half_ulp_square)
qed

lemma to_double_w_square:
  "to_double ((225 * 2 powr (- 543))\<^sup>2) = 12 * 2 powr (- 1074)"
proof -
  have r: "py_round (50625 / 4096) = 12" by (intro py_round_eqI) simp_all
  have "to_double (50625 / 4096 * 2 powr (- 1074))
      = of_int (py_round (50625 / 4096)) * 2 powr (- 1074)"
    by (rule to_double_subnormal [of 3]) simp_all
  then show ?thesis unfolding w_square r by simp
qed

lemma v_times_w: "2 powr (- 537) * (225 * 2 powr (- 543)) = 225 / 64 * (2 :: real) powr (- 1074)"
proof -
  have "2 powr (- 537) * (225 / 64 * (2 :: real) powr (- 537))
      = 225 / 64 * (2 powr (- 537) * 2 powr (- 537))"
    by simp
  then show ?thesis by (simp only: w_component half_ulp_square)
qed

lemma to_double_v_times_w:
  "to_double (2 powr (- 537) * (225 * 2 powr (- 543))) = 4 * 2 powr (- 1074)"
proof -
  have r: "py_round (225 / 64) = 4" by (intro py_round_eqI) simp_all
  have "to_double (225 / 64 * 2 powr (- 1074))
      = of_int (py_round (225 / 64)) * 2 powr (- 1074)"
    by (rule to_double_subnormal [of 1]) simp_all
  then show ?thesis unfolding v_times_w r by simp
qed

lemma sqrt12_bounds: "34 / 10 < sqrt 12" "sqrt 12 < 347 / 100"
  by (rule real_less_rsqrt, simp add: power2_eq_square) (rule real_less_lsqrt, simp_all add: power2_eq_square)

lemma sqrt_12u: "sqrt (12 * 2 powr (- 1074)) = sqrt 12 * 2 powr (- 537)"
proof -
  have "sqrt ((2 :: real) powr (- 1074)) = 2 powr (- 537)"
    by (rule real_sqrt_unique) (simp_all add: power2_eq_square half_ulp_square)
  then show ?thesis by (simp add: real_sqrt_mult)
qed

lemma magnitude_double_w:
  "magnitude_double [225 * 2 powr (- 543), 0, 0]
     = Inr (of_int (py_round (sqrt 12 * 2 ^ 51)) * 2 powr (- 588))"
proof -
  let ?x = "sqrt 12 * (2 :: real) powr (- 537)"
  have p536: "(2 :: real) powr (- 536) = 2 * 2 powr (- 537)"
    and p535: "(2 :: real) powr (- 535) = 4 * 2 powr (- 537)"
    using powr_add [of "2 :: real" 1 "- 537"] powr_add [of "2 :: real" 2 "- 537"] by simp_all
  have pos: "0 < (2 :: real) powr (- 537)" by simp
  have ax: "\<bar>?x\<bar> = ?x" by simp
  have lo: "2 powr of_int (- 536) \<le> \<bar>?x\<bar>"
    unfolding ax using sqrt12_bounds(1) pos by (simp add: p536)
  have hi: "\<bar>?x\<bar> < 2 powr of_int (- 536 + 1)"
    unfolding ax using sqrt12_bounds(2) pos by (simp add: p535)
  have q: "?x / 2 powr (- 588) = sqrt 12 * 2 ^ 51"
    using powr_add [of "2 :: real" 51 "- 588"] by simp
  have "to_double ?x = of_int (py_round (?x / 2 powr (- 588))) * 2 powr (- 588)"
    using to_double_eq [OF lo hi] by simp
  then have x: "to_double ?x = of_int (py_round (sqrt 12 * 2 ^ 51)) * 2 powr (- 588)"
    by (simp only: q)
  have "\<not> 2 ^ 1024 \<le> 12 * (2 :: real) powr (- 1074)"
    using small_units_le_1 [of 12] by (intro below_overflow) simp
  then have p: "pow2_double (225 * 2 powr (- 543)) = Inr (12 * 2 powr (- 1074))"
    by (simp only: pow2_double_def to_double_w_square if_False)
  show ?thesis
    by (simp only: magnitude_double_def squares_double3 [OF p] bind_err_def sum.case
        sum_double3 to_double_12u sqrt_12u x)
qed

lemma rounded_sqrt12:
  "33 / 10 < of_int (py_round (sqrt 12 * 2 ^ 51)) / (2 ^ 51 :: real)"
  "of_int (py_round (sqrt 12 * 2 ^ 51)) / (2 ^ 51 :: real) < 35 / 10"
proof -
  let ?n = "of_int (py_round (sqrt 12 * 2 ^ 51)) :: real"
  have b: "sqrt 12 * 2 ^ 51 - 1 / 2 \<le> ?n" "?n \<le> sqrt 12 * 2 ^ 51 + 1 / 2"
    using py_round_bounds [of "sqrt 12 * 2 ^ 51"] by simp_all
  have "33 / 10 * 2 ^ 51 < ?n" using b(1) sqrt12_bounds(1) by (simp; linarith)
  then show "33 / 10 < ?n / 2 ^ 51" by (simp add: pos_less_divide_eq)
  have "?n < 35 / 10 * 2 ^ 51" using b(2) sqrt12_bounds(2) by (simp; linarith)
  then show "?n / 2 ^ 51 < 35 / 10" by (simp add: pos_divide_less_eq)
qed

lemma to_double_magnitudes:
  "to_double (2 powr (- 537) * (of_int (py_round (sqrt 12 * 2 ^ 51)) * 2 powr (- 588)))
     = 3 * 2 powr (- 1074)"
proof -
  let ?c = "of_int (py_round (sqrt 12 * 2 ^ 51)) / (2 ^ 51 :: real)"
  have "(2 :: real) powr (- 537) * 2 powr (- 588) = 2 powr (- 1074) * 2 powr (- 51)"
    by (simp add: powr_add [symmetric])
  also have "(2 :: real) powr (- 51) = 1 / 2 ^ 51" by (simp add: powr_minus_divide)
  finally have e: "2 powr (- 537) * (of_int (py_round (sqrt 12 * 2 ^ 51)) * 2 powr (- 588))
      = ?c * 2 powr (- 1074)"
    by simp
  have "py_round ?c = 3"
    using rounded_sqrt12 by (intro py_round_eqI) simp_all
  moreover have "2 powr of_int 1 \<le> \<bar>?c\<bar>" "\<bar>?c\<bar> < 2 powr of_int (1 + 1)"
    using rounded_sqrt12 by simp_all
  ultimately show ?thesis
    using to_double_subnormal [of 1 ?c] by (simp only: e)
qed

lemma to_double_4_3:
  "to_double (4 / 3) = of_int (py_round (4 / 3 * 2 ^ 52)) / 2 ^ 52"
proof -
  have "to_double (4 / 3) = of_int (py_round (4 / 3 / 2 powr (- 52))) * 2 powr (- 52)"
    using to_double_eq [of 0 "4 / 3"] by simp
  moreover have "(2 :: real) powr (- 52) = 1 / 2 ^ 52" by (simp add: powr_minus_divide)
  ultimately show ?thesis by simp
qed

lemma quotient_bounds:
  "1333332 / 1000000 < to_double (4 / 3)" "to_double (4 / 3) < 1333334 / 1000000"
proof -
  let ?m = "of_int (py_round (4 / 3 * 2 ^ 52)) :: real"
  have b: "4 / 3 * 2 ^ 52 - 1 / 2 \<le> ?m" "?m \<le> 4 / 3 * 2 ^ 52 + 1 / 2"
    using py_round_bounds [of "4 / 3 * 2 ^ 52"] by simp_all
  have "1333332 / 1000000 * 2 ^ 52 < ?m" using b(1) by (simp; linarith)
  then show "1333332 / 1000000 < to_double (4 / 3)"
    by (simp add: to_double_4_3 pos_less_divide_eq)
  have "?m < 1333334 / 1000000 * 2 ^ 52" using b(2) by (simp; linarith)
  then show "to_double (4 / 3) < 1333334 / 1000000"
    by (simp add: to_double_4_3 pos_divide_less_eq)
qed

lemma rounded_quotient: "py_round_ndigits (to_double (4 / 3)) 5 = 133333 / 100000"
proof -
  have "py_round (to_double (4 / 3) * 10 ^ 5) = 133333"
    using quotient_bounds by (intro py_round_eqI) simp_all
  then show ?thesis by (simp add: py_round_ndigits_def)
qed

lemma to_double_rounded_quotient: "1 < to_double (133333 / 100000)"
proof -
  let ?m = "of_int (py_round (133333 / 100000 / 2 powr (- 52))) :: real"
  have p: "(2 :: real) powr (- 52) = 1 / 2 ^ 52" by (simp add: powr_minus_divide)
  have "to_double (133333 / 100000) = ?m * 2 powr (- 52)"
    using to_double_eq [of 0 "133333 / 100000"] by simp
  moreover have "2 ^ 52 < ?m"
    using py_round_bounds [of "133333 / 100000 / 2 powr (- 52)"] by (simp add: p)
  ultimately show ?thesis by (simp add: p)
qed

text \<open>
  Claim C4 says that for equal-length vectors of nonzero magnitude the quotient rounded
  to 5 decimal places lies in \<open>[-1, 1]\<close>, so that \<^verbatim>\<open>math.acos\<close> cannot raise. In double
  precision it can: for \<^verbatim>\<open>v = (2**-537, 0, 0)\<close> and \<^verbatim>\<open>w = (225 * 2**-543, 0, 0)\<close>, both doubles of
  nonzero magnitude, the dot product rounds to 4 and the product of the magnitudes to 3
  subnormal units, the quotient is the double nearest to 4/3, rounding to 5 places gives
  1.33333, and \<^verbatim>\<open>angle_vectors\<close> ends in the domain error of \<^verbatim>\<open>math.acos\<close>. All but one
  summand of every sum are zero here, so the order of summation plays no role.
\<close>

theorem angle_vectors_double_domain_error:
  "to_double (2 powr (- 537)) = 2 powr (- 537)
   \<and> to_double (225 * 2 powr (- 543)) = 225 * 2 powr (- 543)
   \<and> magnitude_double [2 powr (- 537), 0, 0] = Inr (2 powr (- 537))
   \<and> 2 powr (- 537) \<noteq> (0 :: real)
   \<and> magnitude_double [225 * 2 powr (- 543), 0, 0]
       = Inr (of_int (py_round (sqrt 12 * 2 ^ 51)) * 2 powr (- 588))
   \<and> of_int (py_round (sqrt 12 * 2 ^ 51)) * 2 powr (- 588) \<noteq> (0 :: real)
   \<and> angle_vectors_double [2 powr (- 537), 0, 0] [225 * 2 powr (- 543), 0, 0]
       = Inl (ValueError ''math domain error'')"
proof -
  let ?v = "[2 powr (- 537), 0, 0] :: real list" and ?w = "[225 * 2 powr (- 543), 0, 0] :: real list"
  let ?n = "of_int (py_round (sqrt 12 * 2 ^ 51)) :: real"
  have npos: "0 < ?n"
    using rounded_sqrt12(1) by (simp add: pos_less_divide_eq)
  have mv: "(2 :: real) powr (- 537) \<noteq> 0" by simp
  have mw: "?n * 2 powr (- 588) \<noteq> 0" using npos by simp
  have d: "dot_product_double ?v ?w = Inr (4 * 2 powr (- 1074))"
    by (simp add: dot_product_double_def to_double_v_times_w sum_double3 to_double_4u to_double_0)
  have p: "to_double (2 powr (- 537) * (?n * 2 powr (- 588))) = 3 * 2 powr (- 1074)"
    by (rule to_double_magnitudes)
  have q: "py_div (4 * 2 powr (- 1074)) (3 * 2 powr (- 1074)) = Inr (4 / 3)"
    by (simp add: py_div_def)
  have a: "py_acos (to_double (py_round_ndigits (to_double (4 / 3)) 5))
      = Inl (ValueError ''math domain error'')"
    using to_double_rounded_quotient by (simp add: rounded_quotient py_acos_def)
  have len: "length ?v = length ?w" by simp
  have "angle_vectors_double ?v ?w = Inl (ValueError ''math domain error'')"
    by (simp only: angle_vectors_double_def len magnitude_double_v magnitude_double_w d p q a
        bind_err_def sum.case mv mw simp_thms if_False)
  moreover have "to_double (225 * 2 powr (- 543)) = 225 * 2 powr (- 543)"
  proof -
    have p543: "(2 :: real) powr (- 536) = 128 * 2 powr (- 543)"
      and p535: "(2 :: real) powr (- 535) = 256 * 2 powr (- 543)"
      and p588: "(2 :: real) powr (- 543) = 2 ^ 45 * 2 powr (- 588)"
      using powr_add [of "2 :: real" 7 "- 543"] powr_add [of "2 :: real" 8 "- 543"]
        powr_add [of "2 :: real" 45 "- 588"] by simp_all
    have lo: "2 powr of_int (- 536) \<le> \<bar>225 * (2 :: real) powr (- 543)\<bar>"
      by (simp add: p543)
    have hi: "\<bar>225 * (2 :: real) powr (- 543)\<bar> < 2 powr of_int (- 536 + 1)"
      by (simp add: p535)
    have "225 * (2 :: real) powr (- 543) / 2 powr (- 588) = of_int (225 * 2 ^ 45)"
      by (simp add: p588)
    then have "py_round (225 * (2 :: real) powr (- 543) / 2 powr (- 588)) = 225 * 2 ^ 45"
      by (simp only: py_round_of_int)
    then show ?thesis
      using to_double_eq [OF lo hi] by (simp add: p588)
  qed
  ultimately show ?thesis
    using mv mw to_double_half_ulp magnitude_double_v magnitude_double_w by simp
qed


section \<open>The bearing from a pole\<close>

lemma to_vector_with_exact: "to_vector_with cos_degrees sin_degrees = to_vector"
  by (intro ext) (simp add: to_vector_with_def to_vector_def cos_degrees_def sin_degrees_def)

lemma direction_with_exact:
  "direction_between_coordinates_with cos_degrees sin_degrees = direction_between_coordinates"
  by (intro ext)
     (simp add: direction_between_coordinates_with_def direction_between_coordinates_def
        to_vector_with_exact)

lemma bearing_with_exact:
  "bearing_between_coordinates_with cos_degrees sin_degrees = bearing_between_coordinates"
  by (intro ext)
     (simp add: bearing_between_coordinates_with_def bearing_between_coordinates_def
        to_vector_with_exact direction_with_exact)

lemma to_vector_with_Inr:
  assumes "- 90 \<le> lat" "lat \<le> 90" "- 180 \<le> long" "long \<le> 180"
  shows "to_vector_with cosd sind lat long =
    Inr [R * cosd lat * cosd long, R * cosd lat * sind long, R * sind lat]"
  using assms by (simp add: to_vector_with_def)

lemma direction_with3:
  assumes "to_vector_with cosd sind lat1 long1 = Inr [x, y, z]"
      and "to_vector_with cosd sind lat2 long2 = Inr [p, q, r]"
  shows "\<exists>a b c. direction_between_coordinates_with cosd sind lat1 long1 lat2 long2 = Inr [a, b, c]
           \<and> (magnitude [- (x * z), - (y * z), y * y + x * x] \<noteq> 0 \<longrightarrow> magnitude [a, b, c] \<noteq> 0)"
proof -
  obtain a b c where r: "bind_err (cross_product [x, y, z] [p, q, r])
      (\<lambda>c. cross_product c [x, y, z]) = Inr [a, b, c]"
    by (simp add: cross_product3 bind_err_def)
  show ?thesis
  proof (cases "magnitude [a, b, c] < 1")
    case True
    then have "direction_between_coordinates_with cosd sind lat1 long1 lat2 long2
        = Inr [- (x * z), - (y * z), y * y + x * x]"
      using r by (simp add: direction_between_coordinates_with_def assms bind_err_def
          cross_product3 split: sum.splits)
    then show ?thesis by simp
  next
    case False
    then have "direction_between_coordinates_with cosd sind lat1 long1 lat2 long2 = Inr [a, b, c]"
      using r by (simp add: direction_between_coordinates_with_def assms bind_err_def
          cross_product3 split: sum.splits)
    moreover have "magnitude [a, b, c] \<noteq> 0" using False by simp
    ultimately show ?thesis by simp
  qed
qed

lemma component_le_magnitude: "\<bar>b\<bar> \<le> magnitude [a, b, d]"
proof -
  have "b\<^sup>2 \<le> a\<^sup>2 + b\<^sup>2 + d\<^sup>2" by simp
  then have "sqrt (b\<^sup>2) \<le> sqrt (a\<^sup>2 + b\<^sup>2 + d\<^sup>2)" by (rule real_sqrt_le_mono)
  then show ?thesis by (simp add: magnitude3)
qed

lemma first_le_magnitude: "\<bar>a\<bar> \<le> magnitude [a, b, d]"
proof -
  have "a\<^sup>2 \<le> a\<^sup>2 + b\<^sup>2 + d\<^sup>2" by simp
  then have "sqrt (a\<^sup>2) \<le> sqrt (a\<^sup>2 + b\<^sup>2 + d\<^sup>2)" by (rule real_sqrt_le_mono)
  then show ?thesis by (simp add: magnitude3)
qed

lemma R_ge_1: "1 \<le> R"
  by (simp add: R_def)

lemma residual_quotient:
  assumes "0 < c" "c \<le> 1 / 1000000"
  shows "py_round_ndigits
           (sum_list (map (\<lambda>(a, b). a * b)
              (zip [R ^ 3 * c, R ^ 3 * c\<^sup>2 + R ^ 3, - (R ^ 3 * c\<^sup>2)] [- (R\<^sup>2 * c), 0, R\<^sup>2 * c\<^sup>2]))
            / (magnitude [R ^ 3 * c, R ^ 3 * c\<^sup>2 + R ^ 3, - (R ^ 3 * c\<^sup>2)]
               * magnitude [- (R\<^sup>2 * c), 0, R\<^sup>2 * c\<^sup>2])) 5 = 0"
    and "magnitude [R ^ 3 * c, R ^ 3 * c\<^sup>2 + R ^ 3, - (R ^ 3 * c\<^sup>2)] \<noteq> 0"
    and "magnitude [- (R\<^sup>2 * c), 0, R\<^sup>2 * c\<^sup>2] \<noteq> 0"
    and "\<not> magnitude [R ^ 3 * c, R ^ 3 * c\<^sup>2 + R ^ 3, - (R ^ 3 * c\<^sup>2)] < 1"
proof -
  let ?w = "[R ^ 3 * c, R ^ 3 * c\<^sup>2 + R ^ 3, - (R ^ 3 * c\<^sup>2)]"
  let ?n = "[- (R\<^sup>2 * c), 0, R\<^sup>2 * c\<^sup>2]"
  let ?d = "sum_list (map (\<lambda>(a, b). a * b) (zip ?w ?n))"
  have Rp: "0 < R" by (rule R_pos)
  have R3: "1 \<le> R ^ 3" using R_ge_1 by (rule one_le_power)
  have R2: "0 < R\<^sup>2" using Rp by simp
  have w_lo: "R ^ 3 * (1 + c\<^sup>2) \<le> magnitude ?w"
  proof -
    have "0 \<le> R ^ 3 * c\<^sup>2 + R ^ 3" using Rp by simp
    then have "\<bar>R ^ 3 * c\<^sup>2 + R ^ 3\<bar> = R ^ 3 * (1 + c\<^sup>2)" by (simp add: algebra_simps)
    then show ?thesis
      using component_le_magnitude [of "R ^ 3 * c\<^sup>2 + R ^ 3" "R ^ 3 * c" "- (R ^ 3 * c\<^sup>2)"]
      by simp
  qed
  have w1: "1 \<le> magnitude ?w"
  proof -
    have "R ^ 3 * 1 \<le> R ^ 3 * (1 + c\<^sup>2)" using Rp by (intro mult_left_mono) simp_all
    with R3 w_lo show ?thesis by linarith
  qed
  then show "\<not> magnitude ?w < 1" by simp
  from w1 show wnz: "magnitude ?w \<noteq> 0" by simp
  have n_lo: "R\<^sup>2 * c \<le> magnitude ?n"
  proof -
    have "\<bar>- (R\<^sup>2 * c)\<bar> = R\<^sup>2 * c" using R2 assms(1) by (simp add: abs_mult)
    then show ?thesis
      using first_le_magnitude [of "- (R\<^sup>2 * c)" 0 "R\<^sup>2 * c\<^sup>2"] by simp
  qed
  have n_pos: "0 < R\<^sup>2 * c" using R2 assms(1) by simp
  with n_lo show nnz: "magnitude ?n \<noteq> 0" by simp
  have w_pos: "0 < R ^ 3 * (1 + c\<^sup>2)"
    using Rp by (intro mult_pos_pos zero_less_power add_pos_nonneg) simp_all
  have prod_lo: "(R ^ 3 * (1 + c\<^sup>2)) * (R\<^sup>2 * c) \<le> magnitude ?w * magnitude ?n"
    using w_lo n_lo w_pos n_pos by (intro mult_mono) simp_all
  have dval: "?d = - (c * ((R ^ 3 * (1 + c\<^sup>2)) * (R\<^sup>2 * c)))"
    by (simp add: algebra_simps power2_eq_square power3_eq_cube)
  have den_pos: "0 < magnitude ?w * magnitude ?n"
    using prod_lo w_pos n_pos by (meson less_le_trans mult_pos_pos)
  have nn: "0 \<le> c * ((R ^ 3 * (1 + c\<^sup>2)) * (R\<^sup>2 * c))"
  proof -
    have "0 < (R ^ 3 * (1 + c\<^sup>2)) * (R\<^sup>2 * c)"
      using w_pos n_pos by (rule mult_pos_pos)
    with assms(1) have "0 < c * ((R ^ 3 * (1 + c\<^sup>2)) * (R\<^sup>2 * c))"
      by (rule mult_pos_pos)
    then show ?thesis by (rule less_imp_le)
  qed
  have "\<bar>?d\<bar> = c * ((R ^ 3 * (1 + c\<^sup>2)) * (R\<^sup>2 * c))"
    unfolding dval using nn by (simp only: abs_minus_cancel abs_of_nonneg)
  also have "\<dots> \<le> c * (magnitude ?w * magnitude ?n)"
    using prod_lo assms(1) by (intro mult_left_mono) simp_all
  finally have le: "\<bar>?d\<bar> \<le> c * (magnitude ?w * magnitude ?n)" .
  define D where "D = magnitude ?w * magnitude ?n"
  define q where "q = ?d / D"
  have Dpos: "0 < D" using den_pos by (simp only: D_def)
  have "\<bar>q\<bar> = \<bar>?d\<bar> / D" using Dpos by (simp only: q_def abs_divide abs_of_pos)
  also have "\<dots> \<le> c" using le Dpos by (simp only: D_def [symmetric] pos_divide_le_eq)
  finally have qb: "\<bar>q\<bar> \<le> 1 / 1000000" using assms(2) by linarith
  have "py_round (q * 10 ^ 5) = 0"
  proof (rule py_round_eqI)
    show "of_int 0 - 1 / 2 < q * 10 ^ 5" using qb by (simp add: abs_le_iff; linarith)
    show "q * 10 ^ 5 < of_int 0 + 1 / 2" using qb by (simp add: abs_le_iff; linarith)
  qed
  then have "py_round_ndigits q 5 = 0" by (simp add: py_round_ndigits_def)
  then show "py_round_ndigits (?d / (magnitude ?w * magnitude ?n)) 5 = 0"
    by (simp only: q_def D_def)
qed

lemma bearing_residual:
  assumes c: "0 < c" "c \<le> 1 / 1000000"
    and v: "to_vector_with cosd sind lat1 long1 = Inr [R * c, 0, R]"
    and w: "to_vector_with cosd sind lat2 long2 = Inr [R * c, R, 0]"
  shows "bearing_between_coordinates_with cosd sind lat1 long1 lat2 long2
           = Inr (if long2 < long1 then 270 else 90)"
proof -
  let ?w = "[R ^ 3 * c, R ^ 3 * c\<^sup>2 + R ^ 3, - (R ^ 3 * c\<^sup>2)]"
  let ?n = "[- (R\<^sup>2 * c), 0, R\<^sup>2 * c\<^sup>2]"
  have c1: "cross_product [R * c, 0, R] [R * c, R, 0] = Inr [- (R\<^sup>2), R\<^sup>2 * c, R\<^sup>2 * c]"
    by (simp add: cross_product3 power2_eq_square)
  have c2: "cross_product [- (R\<^sup>2), R\<^sup>2 * c, R\<^sup>2 * c] [R * c, 0, R] = Inr ?w"
    by (simp add: cross_product3 power2_eq_square power3_eq_cube algebra_simps)
  have n1: "cross_product [R * c, 0, R] [0, 0, 1] = Inr [0, - (R * c), 0]"
    by (simp add: cross_product3)
  have n2: "cross_product [0, - (R * c), 0] [R * c, 0, R] = Inr ?n"
    by (simp add: cross_product3 power2_eq_square algebra_simps)
  have d: "direction_between_coordinates_with cosd sind lat1 long1 lat2 long2 = Inr ?w"
    by (simp only: direction_between_coordinates_with_def v w bind_err_def sum.case c1 c2
        residual_quotient(4) [OF c] if_False)
  have "angle_vectors ?w ?n = Inr (arccos 0)"
    using angle_vectors_nonzero [of ?w ?n] residual_quotient(2,3) [OF c]
    by (simp only: residual_quotient(1) [OF c]) simp
  then have a: "angle_vectors ?w ?n = Inr (pi / 2)" by simp
  have deg: "degrees (pi / 2) = 90" by (simp add: degrees_def)
  show ?thesis
    by (simp only: bearing_between_coordinates_with_def v d bind_err_def sum.case n1 n2 a
        Let_def deg) simp
qed

lemma cos_float_small:
  "0 < (4967757600021511 / 2 ^ 106 :: real)" "(4967757600021511 / 2 ^ 106 :: real) \<le> 1 / 1000000"
  by simp_all

lemma to_vector_float_pole: "to_vector_with cos_degrees_float sin_degrees 90 0
    = Inr [R * (4967757600021511 / 2 ^ 106), 0, R]"
  by (simp add: to_vector_with_def cos_degrees_float_def sin_degrees_def radians_def)

lemma to_vector_float_0_90: "to_vector_with cos_degrees_float sin_degrees 0 90
    = Inr [R * (4967757600021511 / 2 ^ 106), R, 0]"
  by (simp add: to_vector_with_def cos_degrees_float_def sin_degrees_def radians_def)

text \<open>
  Claim C9 says that from a pole the north tangent is the zero vector and the bearing is 0
  when \<open>long2 \<ge> long1\<close> and 360 when \<open>long2 < long1\<close>. That needs \<^verbatim>\<open>cos(radians(90))\<close> to be
  exactly 0. With the value the floats give there, \<^verbatim>\<open>to_vector(90, 0)\<close> has the first
  component \<open>R \<cdot> 6.1e-17\<close>, the north tangent is not zero, \<^verbatim>\<open>angle_vectors\<close> does not return
  by its zero-magnitude branch, and the bearing from \<open>(90, 0)\<close> to \<open>(0, 90)\<close> is 90, not 0.
\<close>

theorem bearing_from_pole_float_counterexample:
  "bearing_between_coordinates_with cos_degrees_float sin_degrees 90 0 0 90 = Inr 90"
  using bearing_residual [OF cos_float_small to_vector_float_pole to_vector_float_0_90]
  by simp

lemma angle_vectors_zero_right3: "angle_vectors [a, b, c] [0, 0, 0] = Inr 0"
  by (simp add: angle_vectors_def magnitude_zero3)

lemma north_nonzero:
  assumes "x \<noteq> 0 \<or> y \<noteq> 0"
  shows "magnitude [- (x * z), - (y * z), y * y + x * x] \<noteq> 0"
proof -
  have "0 < y * y + x * x"
    using assms by (metis add_pos_nonneg add_nonneg_pos zero_le_square not_real_square_gt_zero)
  then have "0 < \<bar>y * y + x * x\<bar>" by simp
  moreover have "\<bar>y * y + x * x\<bar> \<le> magnitude [- (x * z), y * y + x * x, - (y * z)]"
    by (rule component_le_magnitude)
  moreover have "magnitude [- (x * z), y * y + x * x, - (y * z)]
      = magnitude [- (x * z), - (y * z), y * y + x * x]"
    by (simp add: magnitude3 add.commute add.left_commute)
  ultimately show ?thesis by simp
qed

text \<open>
  Claim C9, amended. Let the first coordinate be a pole (\<open>lat1 = 90\<close> or \<open>lat1 = -90\<close>) and
  the rest valid. If the library's \<^verbatim>\<open>cos(radians(lat1))\<close> is exactly 0, as in exact
  arithmetic, the north tangent \<open>cross(cross(v, (0,0,1)), v)\<close> is the zero vector,
  \<^verbatim>\<open>angle_vectors\<close> returns 0 by its zero-magnitude convention and the bearing is 0 when
  \<open>long2 \<ge> long1\<close> and 360 when \<open>long2 < long1\<close>. If it is not 0, as with Python floats, and
  the cosine and sine of \<open>long1\<close> are not both 0, then the north tangent and the direction
  have nonzero magnitude, the zero-magnitude branch is not taken, and the bearing is the
  arc cosine of the rounded cosine between them, in degrees, mirrored when
  \<open>long2 < long1\<close>.
\<close>

theorem bearing_from_pole_with_library:
  assumes "lat1 = 90 \<or> lat1 = - 90" "- 180 \<le> long1" "long1 \<le> 180"
      and "- 90 \<le> lat2" "lat2 \<le> 90" "- 180 \<le> long2" "long2 \<le> 180"
  shows "(cosd lat1 = 0 \<longrightarrow>
           (\<exists>v w. to_vector_with cosd sind lat1 long1 = Inr v
              \<and> bind_err (cross_product v [0, 0, 1]) (\<lambda>n. cross_product n v) = Inr [0, 0, 0]
              \<and> direction_between_coordinates_with cosd sind lat1 long1 lat2 long2 = Inr w
              \<and> angle_vectors w [0, 0, 0] = Inr 0
              \<and> bearing_between_coordinates_with cosd sind lat1 long1 lat2 long2
                  = Inr (if long2 < long1 then 360 else 0)))
       \<and> (cosd lat1 \<noteq> 0 \<and> (cosd long1 \<noteq> 0 \<or> sind long1 \<noteq> 0) \<longrightarrow>
           (\<exists>v n w. to_vector_with cosd sind lat1 long1 = Inr v
              \<and> bind_err (cross_product v [0, 0, 1]) (\<lambda>n. cross_product n v) = Inr n
              \<and> magnitude n \<noteq> 0
              \<and> direction_between_coordinates_with cosd sind lat1 long1 lat2 long2 = Inr w
              \<and> magnitude w \<noteq> 0
              \<and> angle_vectors w n
                  = Inr (arccos (py_round_ndigits
                      (sum_list (map (\<lambda>(a, b). a * b) (zip w n)) / (magnitude w * magnitude n)) 5))
              \<and> bearing_between_coordinates_with cosd sind lat1 long1 lat2 long2
                  = Inr (if long2 < long1
                         then 360 - degrees (arccos (py_round_ndigits
                           (sum_list (map (\<lambda>(a, b). a * b) (zip w n))
                              / (magnitude w * magnitude n)) 5))
                         else degrees (arccos (py_round_ndigits
                           (sum_list (map (\<lambda>(a, b). a * b) (zip w n))
                              / (magnitude w * magnitude n)) 5)))))"
proof -
  have lat: "- 90 \<le> lat1" "lat1 \<le> 90" using assms(1) by auto
  define x where "x = R * cosd lat1 * cosd long1"
  define y where "y = R * cosd lat1 * sind long1"
  define z where "z = R * sind lat1"
  have v: "to_vector_with cosd sind lat1 long1 = Inr [x, y, z]"
    unfolding x_def y_def z_def by (rule to_vector_with_Inr [OF lat assms(2,3)])
  obtain p q r where w: "to_vector_with cosd sind lat2 long2 = Inr [p, q, r]"
    using to_vector_with_Inr [OF assms(4-7)] by blast
  let ?n = "[- (x * z), - (y * z), y * y + x * x]"
  have n: "bind_err (cross_product [x, y, z] [0, 0, 1]) (\<lambda>n. cross_product n [x, y, z]) = Inr ?n"
    by (rule north_tangent3)
  obtain a b c where d: "direction_between_coordinates_with cosd sind lat1 long1 lat2 long2
      = Inr [a, b, c]"
    and dnz: "magnitude ?n \<noteq> 0 \<longrightarrow> magnitude [a, b, c] \<noteq> 0"
    using direction_with3 [OF v w] by blast
  have n1: "cross_product [x, y, z] [0, 0, 1] = Inr [y, - x, 0]"
    by (simp add: cross_product3)
  have n2: "cross_product [y, - x, 0] [x, y, z] = Inr ?n"
    by (simp add: cross_product3)
  have bear: "bearing_between_coordinates_with cosd sind lat1 long1 lat2 long2
      = bind_err (angle_vectors [a, b, c] ?n) (\<lambda>a.
          Inr (if long2 < long1 then 360 - degrees a else degrees a))"
    by (simp only: bearing_between_coordinates_with_def v d bind_err_def sum.case n1 n2 Let_def)
  have A: "\<exists>v w. to_vector_with cosd sind lat1 long1 = Inr v
              \<and> bind_err (cross_product v [0, 0, 1]) (\<lambda>n. cross_product n v) = Inr [0, 0, 0]
              \<and> direction_between_coordinates_with cosd sind lat1 long1 lat2 long2 = Inr w
              \<and> angle_vectors w [0, 0, 0] = Inr 0
              \<and> bearing_between_coordinates_with cosd sind lat1 long1 lat2 long2
                  = Inr (if long2 < long1 then 360 else 0)"
    if "cosd lat1 = 0"
  proof -
    have xy: "x = 0" "y = 0" using that by (simp_all add: x_def y_def)
    have nz: "?n = [0, 0, 0]" using xy by simp
    have "bearing_between_coordinates_with cosd sind lat1 long1 lat2 long2
        = Inr (if long2 < long1 then 360 else 0)"
      unfolding bear nz by (simp add: angle_vectors_zero_right3 bind_err_def degrees_def)
    then show ?thesis
      using v n d nz angle_vectors_zero_right3 [of a b c] by auto
  qed
  have B: "\<exists>v n w. to_vector_with cosd sind lat1 long1 = Inr v
              \<and> bind_err (cross_product v [0, 0, 1]) (\<lambda>n. cross_product n v) = Inr n
              \<and> magnitude n \<noteq> 0
              \<and> direction_between_coordinates_with cosd sind lat1 long1 lat2 long2 = Inr w
              \<and> magnitude w \<noteq> 0
              \<and> angle_vectors w n
                  = Inr (arccos (py_round_ndigits
                      (sum_list (map (\<lambda>(a, b). a * b) (zip w n)) / (magnitude w * magnitude n)) 5))
              \<and> bearing_between_coordinates_with cosd sind lat1 long1 lat2 long2
                  = Inr (if long2 < long1
                         then 360 - degrees (arccos (py_round_ndigits
                           (sum_list (map (\<lambda>(a, b). a * b) (zip w n))
                              / (magnitude w * magnitude n)) 5))
                         else degrees (arccos (py_round_ndigits
                           (sum_list (map (\<lambda>(a, b). a * b) (zip w n))
                              / (magnitude w * magnitude n)) 5)))"
    if h: "cosd lat1 \<noteq> 0 \<and> (cosd long1 \<noteq> 0 \<or> sind long1 \<noteq> 0)"
  proof -
    have "x \<noteq> 0 \<or> y \<noteq> 0" using h R_pos by (auto simp: x_def y_def)
    then have nnz: "magnitude ?n \<noteq> 0" by (rule north_nonzero)
    with dnz have wnz: "magnitude [a, b, c] \<noteq> 0" by simp
    have av: "angle_vectors [a, b, c] ?n
        = Inr (arccos (py_round_ndigits
            (sum_list (map (\<lambda>(a, b). a * b) (zip [a, b, c] ?n))
               / (magnitude [a, b, c] * magnitude ?n)) 5))"
      using wnz nnz by (intro angle_vectors_nonzero) simp_all
    have "bearing_between_coordinates_with cosd sind lat1 long1 lat2 long2
        = Inr (if long2 < long1
               then 360 - degrees (arccos (py_round_ndigits
                 (sum_list (map (\<lambda>(a, b). a * b) (zip [a, b, c] ?n))
                    / (magnitude [a, b, c] * magnitude ?n)) 5))
               else degrees (arccos (py_round_ndigits
                 (sum_list (map (\<lambda>(a, b). a * b) (zip [a, b, c] ?n))
                    / (magnitude [a, b, c] * magnitude ?n)) 5)))"
      by (simp only: bear av bind_err_def sum.case)
    then show ?thesis
      using v n d nnz wnz av by blast
  qed
  from A B show ?thesis by blast
qed

theorem bearing_from_pole_with_library_witness:
  "bearing_between_coordinates_with cos_degrees sin_degrees 90 0 0 10 = Inr 0
   \<and> bearing_between_coordinates_with cos_degrees sin_degrees (- 90) 0 0 (- 10) = Inr 360
   \<and> (\<exists>v n. to_vector_with cos_degrees_float sin_degrees 90 0 = Inr v
         \<and> bind_err (cross_product v [0, 0, 1]) (\<lambda>n. cross_product n v) = Inr n
         \<and> magnitude n \<noteq> 0)"
proof -
  have e: "cos_degrees 90 = 0" "cos_degrees (- 90) = 0"
    by (simp_all add: cos_degrees_def radians_def)
  have f: "cos_degrees_float 90 \<noteq> 0" "cos_degrees_float 0 \<noteq> 0"
    by (simp_all add: cos_degrees_float_def radians_def)
  show ?thesis
    using bearing_from_pole_with_library [of 90 0 0 10 cos_degrees sin_degrees]
      bearing_from_pole_with_library [of "- 90" 0 0 "- 10" cos_degrees sin_degrees]
      bearing_from_pole_with_library [of 90 0 0 10 cos_degrees_float sin_degrees]
      e f
    by auto
qed

section \<open>The zero-magnitude convention and the other default\<close>

lemma direction_fallback:
  assumes "to_vector lat1 long1 = Inr p" "to_vector lat2 long2 = Inr q"
      and "cross_product p q = Inr c" "cross_product c p = Inr r" "magnitude r < 1"
  shows "direction_between_coordinates lat1 long1 lat2 long2
           = bind_err (cross_product p [0, 0, 1]) (\<lambda>n. cross_product n p)"
  using assms by (simp add: direction_between_coordinates_def bind_err_def)

lemma magnitude_double_zero3: "magnitude_double [0, 0, 0] = Inr 0"
  by (simp add: magnitude_double_def bind_err_def pow2_double_0 sum_double_def to_double_0)

lemma to_double_1: "to_double 1 = 1"
  using to_double_power_of_two [of 0] by simp

lemma pow2_double_1: "pow2_double 1 = Inr 1"
proof -
  have "\<not> 2 ^ 1024 \<le> (1 :: real)" by (rule below_overflow) simp
  then show ?thesis by (simp add: pow2_double_def to_double_1)
qed

lemma magnitude_double_unit: "magnitude_double [1, 0, 0] = Inr 1"
  by (simp only: magnitude_double_def squares_double3 [OF pow2_double_1] bind_err_def sum.case
      sum_double3 to_double_1 real_sqrt_one)

lemma pow2_double_overflow: "pow2_double (2 powr 600) = Inl OverflowError"
proof -
  have sq: "((2 :: real) powr 600)\<^sup>2 = 2 powr of_int 1200"
    by (simp add: power2_eq_square powr_add [symmetric])
  have "to_double (2 powr of_int 1200) = 2 powr of_int 1200"
    by (rule to_double_power_of_two) simp
  moreover have "(2 :: real) ^ 1024 \<le> 2 powr of_int 1200"
  proof -
    have "(2 :: real) powr 1024 \<le> 2 powr 1200" by (rule powr_mono) simp_all
    then show ?thesis by (simp only: powr_numeral of_int_numeral)
  qed
  ultimately show ?thesis by (simp only: pow2_double_def sq if_True)
qed

lemma magnitude_double_overflow: "magnitude_double [2 powr 600, 0, 0] = Inl OverflowError"
  by (simp only: magnitude_double_def squares_double.simps bind_err_def pow2_double_overflow
      sum.case)

text \<open>
  Claim C7, amended. For vectors of equal length, \<^verbatim>\<open>angle_vectors\<close> returns 0 and does not
  raise when \<^verbatim>\<open>magnitude(v)\<close> returns 0, and when \<^verbatim>\<open>magnitude(v)\<close> returns another value and
  \<^verbatim>\<open>magnitude(w)\<close> returns 0. \<^verbatim>\<open>magnitude(v)\<close> is evaluated first: where it raises
  \<^verbatim>\<open>OverflowError\<close> (a component of \<^verbatim>\<open>2**512\<close> or more in absolute value),
  \<^verbatim>\<open>angle_vectors\<close> raises it too, also when \<open>w\<close> is the zero vector. This convention is one
  of two defaults of the module: \<^verbatim>\<open>direction_between_coordinates\<close> returns the north
  tangent \<open>cross(cross(v, (0,0,1)), v)\<close> instead of raising whenever \<open>cross(cross(v, w), v)\<close>
  has magnitude below 1, in particular for two identical valid coordinates.
\<close>

theorem angle_vectors_zero_convention:
  "(length v = length w \<and> magnitude_double v = Inr 0 \<longrightarrow> angle_vectors_double v w = Inr 0)
   \<and> (length v = length w \<and> magnitude_double v = Inr m \<and> magnitude_double w = Inr 0 \<longrightarrow>
        angle_vectors_double v w = Inr 0)
   \<and> (length v = length w \<and> magnitude_double v = Inl e \<longrightarrow> angle_vectors_double v w = Inl e)
   \<and> (to_vector lat1 long1 = Inr p \<and> to_vector lat2 long2 = Inr q
        \<and> cross_product p q = Inr c \<and> cross_product c p = Inr r \<and> magnitude r < 1 \<longrightarrow>
        direction_between_coordinates lat1 long1 lat2 long2
          = bind_err (cross_product p [0, 0, 1]) (\<lambda>n. cross_product n p))
   \<and> (- 90 \<le> lat \<and> lat \<le> 90 \<and> - 180 \<le> long \<and> long \<le> 180 \<longrightarrow>
        (\<exists>x y z. to_vector lat long = Inr [x, y, z]
           \<and> bind_err (cross_product [x, y, z] [x, y, z]) (\<lambda>c. cross_product c [x, y, z])
               = Inr [0, 0, 0]
           \<and> direction_between_coordinates lat long lat long
               = bind_err (cross_product [x, y, z] [0, 0, 1]) (\<lambda>n. cross_product n [x, y, z])
           \<and> direction_between_coordinates lat long lat long
               = Inr [- (x * z), - (y * z), y * y + x * x]))"
proof -
  have z1: "angle_vectors_double v w = Inr 0"
    if "length v = length w" "magnitude_double v = Inr 0"
    using that by (simp add: angle_vectors_double_def bind_err_def)
  have z2: "angle_vectors_double v w = Inr 0"
    if "length v = length w" "magnitude_double v = Inr m" "magnitude_double w = Inr 0"
    using that by (simp add: angle_vectors_double_def bind_err_def)
  have z3: "angle_vectors_double v w = Inl e"
    if "length v = length w" "magnitude_double v = Inl e"
    using that by (simp add: angle_vectors_double_def bind_err_def)
  have d1: "direction_between_coordinates lat1 long1 lat2 long2
          = bind_err (cross_product p [0, 0, 1]) (\<lambda>n. cross_product n p)"
    if "to_vector lat1 long1 = Inr p" "to_vector lat2 long2 = Inr q"
      "cross_product p q = Inr c" "cross_product c p = Inr r" "magnitude r < 1"
    using that by (rule direction_fallback)
  have d2: "\<exists>x y z. to_vector lat long = Inr [x, y, z]
           \<and> bind_err (cross_product [x, y, z] [x, y, z]) (\<lambda>c. cross_product c [x, y, z])
               = Inr [0, 0, 0]
           \<and> direction_between_coordinates lat long lat long
               = bind_err (cross_product [x, y, z] [0, 0, 1]) (\<lambda>n. cross_product n [x, y, z])
           \<and> direction_between_coordinates lat long lat long
               = Inr [- (x * z), - (y * z), y * y + x * x]"
    if h: "- 90 \<le> lat" "lat \<le> 90" "- 180 \<le> long" "long \<le> 180"
  proof -
    obtain x y z where v: "to_vector lat long = Inr [x, y, z]"
      using to_vector_valid3 [OF h] by blast
    have "bind_err (cross_product [x, y, z] [x, y, z]) (\<lambda>c. cross_product c [x, y, z])
        = Inr [0, 0, 0]"
      by (simp add: cross_product3 bind_err_def)
    then show ?thesis
      using v direction_same_point [OF v] north_tangent3 [of x y z] by simp
  qed
  from z1 z2 z3 d1 d2 show ?thesis by blast
qed

theorem angle_vectors_zero_convention_witness:
  "angle_vectors_double [0, 0, 0] [2 powr 600, 0, 0] = Inr 0
   \<and> angle_vectors_double [1, 0, 0] [0, 0, 0] = Inr 0
   \<and> angle_vectors_double [2 powr 600, 0, 0] [0, 0, 0] = Inl OverflowError
   \<and> direction_between_coordinates 0 0 0 (- 180) = Inr [0, 0, R * R]
   \<and> direction_between_coordinates 0 0 0 0 = Inr [0, 0, R * R]"
proof -
  note T = angle_vectors_zero_convention
  have len: "length [0, 0, 0 :: real] = length [2 powr 600, 0, 0 :: real]"
    "length [1, 0, 0 :: real] = length [0, 0, 0 :: real]"
    "length [2 powr 600, 0, 0 :: real] = length [0, 0, 0 :: real]"
    by simp_all
  have a: "angle_vectors_double [0, 0, 0] [2 powr 600, 0, 0] = Inr 0"
    by (rule T [THEN conjunct1, rule_format]) (intro conjI len magnitude_double_zero3)
  have b: "angle_vectors_double [1, 0, 0] [0, 0, 0] = Inr 0"
    by (rule T [THEN conjunct2, THEN conjunct1, rule_format, of _ _ 1])
       (intro conjI len magnitude_double_unit magnitude_double_zero3)
  have c: "angle_vectors_double [2 powr 600, 0, 0] [0, 0, 0] = Inl OverflowError"
    by (rule T [THEN conjunct2, THEN conjunct2, THEN conjunct1, rule_format])
       (intro conjI len magnitude_double_overflow)
  have c1: "cross_product [R, 0, 0] [- R, 0, 0] = Inr [0, 0, 0]"
    and c2: "cross_product [0, 0, 0] [R, 0, 0] = Inr [0, 0, 0]"
    and m: "magnitude [0, 0, 0] < 1"
    and n: "bind_err (cross_product [R, 0, 0] [0, 0, 1]) (\<lambda>n. cross_product n [R, 0, 0])
      = Inr [0, 0, R * R]"
    by (simp_all add: cross_product3 magnitude_zero3 bind_err_def)
  have "direction_between_coordinates 0 0 0 (- 180)
      = bind_err (cross_product [R, 0, 0] [0, 0, 1]) (\<lambda>n. cross_product n [R, 0, 0])"
    by (rule T [of _ _ _ _ 0 0 "[R, 0, 0]" 0 "- 180" "[- R, 0, 0]" "[0, 0, 0]" "[0, 0, 0]",
          THEN conjunct2, THEN conjunct2, THEN conjunct2, THEN conjunct1, rule_format])
       (intro conjI to_vector_0_0 to_vector_0_m180 c1 c2 m)
  then have d: "direction_between_coordinates 0 0 0 (- 180) = Inr [0, 0, R * R]"
    by (simp only: n)
  have e: "direction_between_coordinates 0 0 0 0 = Inr [0, 0, R * R]"
    using T [THEN conjunct2, THEN conjunct2, THEN conjunct2, THEN conjunct2, of 0 0]
    by (simp add: to_vector_0_0 cross_product3 bind_err_def)
  from a b c d e show ?thesis by blast
qed

end
